theory Spec2Isabelle
  imports Complex_Main "HOL-Library.Sublist"
begin

section \<open>Python values and exceptions\<close>

text \<open>
  The conditional formatting engine of \<^verbatim>\<open>reportlabcustom/utils.py\<close> is embedded as
  pure functions. An exception is a value: a computation that can raise returns
  \<open>py_error + 'a\<close>, with \<open>Inl\<close> for the exception and \<open>Inr\<close> for the result.
  Python floats are idealised as reals (no rounding, no infinities; NaN is a value of
  its own where the code can meet it). Strings are lists of characters with code
  points below 256.
\<close>

datatype py_error = TypeError | ValueError | ZeroDivisionError | IndexError | LibraryError string

definition bind_result :: "py_error + 'a \<Rightarrow> ('a \<Rightarrow> py_error + 'b) \<Rightarrow> py_error + 'b" where
  "bind_result r f = (case r of Inl e \<Rightarrow> Inl e | Inr x \<Rightarrow> f x)"

text \<open>\<^verbatim>\<open>xs[i]\<close> on a list raises IndexError out of range.\<close>

definition py_index :: "'a list \<Rightarrow> nat \<Rightarrow> py_error + 'a" where
  "py_index xs i = (if i < length xs then Inr (xs ! i) else Inl IndexError)"

text \<open>\<^verbatim>\<open>a / b\<close> on numbers raises ZeroDivisionError when \<open>b\<close> is zero.\<close>

definition py_truediv :: "real \<Rightarrow> real \<Rightarrow> py_error + real" where
  "py_truediv a b = (if b = 0 then Inl ZeroDivisionError else Inr (a / b))"

text \<open>\<^verbatim>\<open>int(x)\<close> on a float truncates towards zero.\<close>

definition py_int_of_float :: "real \<Rightarrow> int" where
  "py_int_of_float x = (if 0 \<le> x then \<lfloor>x\<rfloor> else \<lceil>x\<rceil>)"

text \<open>\<^verbatim>\<open>str.isspace\<close> on a single character below 256.\<close>

definition py_isspace :: "char \<Rightarrow> bool" where
  "py_isspace c = (let n = (of_char c :: nat) in
     (9 \<le> n \<and> n \<le> 13) \<or> (28 \<le> n \<and> n \<le> 32) \<or> n = 133 \<or> n = 160)"

text \<open>\<^verbatim>\<open>s.strip()\<close>: leading and trailing whitespace removed.\<close>

definition py_strip :: "string \<Rightarrow> string" where
  "py_strip s = rev (dropWhile py_isspace (rev (dropWhile py_isspace s)))"

section \<open>Colour helpers\<close>

definition hex_digit :: "char \<Rightarrow> nat option" where
  "hex_digit c = (let n = (of_char c :: nat) in
     if 48 \<le> n \<and> n \<le> 57 then Some (n - 48)
     else if 97 \<le> n \<and> n \<le> 102 then Some (n - 87)
     else if 65 \<le> n \<and> n \<le> 70 then Some (n - 55)
     else None)"

fun hex_digits_value :: "nat \<Rightarrow> string \<Rightarrow> nat option" where
  "hex_digits_value acc [] = Some acc"
| "hex_digits_value acc (c # cs) =
     (case hex_digit c of
        None \<Rightarrow> None
      | Some d \<Rightarrow> hex_digits_value (16 * acc + d) cs)"

text \<open>
  \<^verbatim>\<open>int(s, 16)\<close> as \<^verbatim>\<open>hex_to_rgb\<close> calls it, on a slice of at most two
  characters: surrounding whitespace is dropped, one sign is accepted, and what is left
  must be a non-empty run of hexadecimal digits; anything else raises ValueError. (A
  \<^verbatim>\<open>0x\<close> prefix or an underscore separator needs three characters to be valid, so
  neither is accepted on such a slice.)
\<close>

definition int_base16 :: "string \<Rightarrow> py_error + int" where
  "int_base16 s =
     (let t = py_strip s;
          neg = (t \<noteq> [] \<and> hd t = CHR ''-'');
          ds = (if t \<noteq> [] \<and> (hd t = CHR ''-'' \<or> hd t = CHR ''+'') then tl t else t)
      in if ds = [] then Inl ValueError
         else (case hex_digits_value 0 ds of
                 None \<Rightarrow> Inl ValueError
               | Some n \<Rightarrow> Inr (if neg then - int n else int n)))"

text \<open>
  \<^verbatim>\<open>
  def hex_to_rgb(hex_color):
      hex_color = hex_color.lstrip('#')
      return tuple(int(hex_color[i:i+2], 16) for i in (0, 2, 4))
  \<close>
\<close>

definition hex_to_rgb :: "string \<Rightarrow> py_error + (int \<times> int \<times> int)" where
  "hex_to_rgb hex_color =
     (let h = dropWhile (\<lambda>c. c = CHR ''#'') hex_color in
      bind_result (int_base16 (take 2 h)) (\<lambda>r.
      bind_result (int_base16 (take 2 (drop 2 h))) (\<lambda>g.
      bind_result (int_base16 (take 2 (drop 4 h))) (\<lambda>b.
        Inr (r, g, b)))))"

definition hex_char :: "nat \<Rightarrow> char" where
  "hex_char d = ''0123456789abcdef'' ! d"

fun hex_digits_of :: "nat \<Rightarrow> string" where
  "hex_digits_of n =
     (if n < 16 then [hex_char n] else hex_digits_of (n div 16) @ [hex_char (n mod 16)])"

declare hex_digits_of.simps [simp del]

text \<open>\<^verbatim>\<open>'{:02x}'.format(n)\<close>: lower-case hexadecimal, zero-padded to width two, the
  sign counting towards the width.\<close>

definition format_02x :: "int \<Rightarrow> string" where
  "format_02x n =
     (if n < 0 then CHR ''-'' # hex_digits_of (nat (- n))
      else if n < 16 then CHR ''0'' # hex_digits_of (nat n)
      else hex_digits_of (nat n))"

text \<open>
  \<^verbatim>\<open>
  def rgb_to_hex(rgb):
      return '#{:02x}{:02x}{:02x}'.format(int(rgb[0]), int(rgb[1]), int(rgb[2]))
  \<close>
\<close>

definition rgb_to_hex :: "real \<times> real \<times> real \<Rightarrow> string" where
  "rgb_to_hex rgb =
     (case rgb of (r, g, b) \<Rightarrow>
        CHR ''#'' # format_02x (py_int_of_float r) @ format_02x (py_int_of_float g)
          @ format_02x (py_int_of_float b))"

text \<open>
  \<^verbatim>\<open>
  def interpolate_color(color1, color2, factor):
      rgb1 = hex_to_rgb(color1)
      rgb2 = hex_to_rgb(color2)
      rgb = tuple(rgb1[i] + (rgb2[i] - rgb1[i]) * factor for i in range(3))
      return rgb_to_hex(rgb)
  \<close>
\<close>

definition blend :: "int \<Rightarrow> int \<Rightarrow> real \<Rightarrow> real" where
  "blend a b factor = real_of_int a + real_of_int (b - a) * factor"

definition interpolate_color :: "string \<Rightarrow> string \<Rightarrow> real \<Rightarrow> py_error + string" where
  "interpolate_color color1 color2 factor =
     bind_result (hex_to_rgb color1) (\<lambda>rgb1.
     bind_result (hex_to_rgb color2) (\<lambda>rgb2.
       (case rgb1 of (r1, g1, b1) \<Rightarrow>
        case rgb2 of (r2, g2, b2) \<Rightarrow>
          Inr (rgb_to_hex (blend r1 r2 factor, blend g1 g2 factor, blend b1 b2 factor)))))"

text \<open>
  \<^verbatim>\<open>
  def get_gradient_color(value, min_val, mid_val, max_val, colors):
      if value <= min_val:
          return colors[0]
      elif value >= max_val:
          return colors[2]
      elif value <= mid_val:
          factor = (value - min_val) / (mid_val - min_val)
          return interpolate_color(colors[0], colors[1], factor)
      else:
          factor = (value - mid_val) / (max_val - mid_val)
          return interpolate_color(colors[1], colors[2], factor)
  \<close>
\<close>

definition get_gradient_color ::
    "real \<Rightarrow> real \<Rightarrow> real \<Rightarrow> real \<Rightarrow> string list \<Rightarrow> py_error + string" where
  "get_gradient_color v min_val mid_val max_val colors =
     (if v \<le> min_val then py_index colors 0
      else if v \<ge> max_val then py_index colors 2
      else if v \<le> mid_val then
        bind_result (py_truediv (v - min_val) (mid_val - min_val)) (\<lambda>factor.
        bind_result (py_index colors 0) (\<lambda>c0.
        bind_result (py_index colors 1) (\<lambda>c1.
          interpolate_color c0 c1 factor)))
      else
        bind_result (py_truediv (v - mid_val) (max_val - mid_val)) (\<lambda>factor.
        bind_result (py_index colors 1) (\<lambda>c1.
        bind_result (py_index colors 2) (\<lambda>c2.
          interpolate_color c1 c2 factor))))"

section \<open>Values of the dataset and of the rules\<close>

text \<open>
  A float is a real or NaN. A cell of the dataset and a scalar field of a rule is one of
  \<^verbatim>\<open>None\<close>, a bool, an int, a float or a str.
\<close>

datatype pyfloat = Fin real | NaN

datatype pyval = PNone | PBool bool | PInt int | PFloat pyfloat | PStr string

text \<open>The result of \<^verbatim>\<open>pd.to_datetime(x, errors='coerce')\<close>: an exception with its
  message, \<^verbatim>\<open>NaT\<close> (or \<^verbatim>\<open>None\<close>, which \<^verbatim>\<open>pd.isna\<close> treats alike), or a
  timestamp. A timestamp is a count of nanoseconds on the proleptic Gregorian
  calendar, time zone naive; its date (\<^verbatim>\<open>.date()\<close>, \<^verbatim>\<open>.toordinal()\<close>) is the
  day number.\<close>

datatype dt_result = DtRaises string | NaT | Ts int

definition ns_per_day :: int where
  "ns_per_day = 86400 * 1000000000"

definition date_of :: "int \<Rightarrow> int" where
  "date_of t = t div ns_per_day"

text \<open>\<^verbatim>\<open>sg_tz = timezone(timedelta(hours=8))\<close>, as an offset in nanoseconds.\<close>

definition sg_tz :: int where
  "sg_tz = 8 * 3600 * 1000000000"

text \<open>
  What the evaluator takes from outside \<^verbatim>\<open>utils.py\<close>: the library's conversions
  (\<^verbatim>\<open>str\<close> and \<^verbatim>\<open>float\<close> where they parse or print a float,
  \<^verbatim>\<open>pd.to_datetime\<close>), the clock, the zone of the host, the global namespace that
  \<^verbatim>\<open>globals()\<close> returns, and the order in which a set of strings is iterated.
\<close>

record pyenv =
  float_repr :: "real \<Rightarrow> string"
  parse_float :: "string \<Rightarrow> py_error + pyfloat"
  to_datetime :: "pyval \<Rightarrow> dt_result"
  now_utc :: int
  local_utc_offset :: int
  module_globals :: "string \<Rightarrow> pyval option"
  set_order :: "string list \<Rightarrow> string list"

definition dec_char :: "nat \<Rightarrow> char" where
  "dec_char d = ''0123456789'' ! d"

fun dec_digits_of :: "nat \<Rightarrow> string" where
  "dec_digits_of n =
     (if n < 10 then [dec_char n] else dec_digits_of (n div 10) @ [dec_char (n mod 10)])"

declare dec_digits_of.simps [simp del]

definition str_int :: "int \<Rightarrow> string" where
  "str_int i = (if i < 0 then CHR ''-'' # dec_digits_of (nat (- i)) else dec_digits_of (nat i))"

text \<open>\<^verbatim>\<open>str(x)\<close>.\<close>

fun py_str :: "pyenv \<Rightarrow> pyval \<Rightarrow> string" where
  "py_str env PNone = ''None''"
| "py_str env (PBool b) = (if b then ''True'' else ''False'')"
| "py_str env (PInt i) = str_int i"
| "py_str env (PFloat NaN) = ''nan''"
| "py_str env (PFloat (Fin x)) = float_repr env x"
| "py_str env (PStr s) = s"

text \<open>\<^verbatim>\<open>float(x)\<close>: TypeError on \<^verbatim>\<open>None\<close>, the library's parser on a str.\<close>

fun py_float :: "pyenv \<Rightarrow> pyval \<Rightarrow> py_error + pyfloat" where
  "py_float env PNone = Inl TypeError"
| "py_float env (PBool b) = Inr (Fin (if b then 1 else 0))"
| "py_float env (PInt i) = Inr (Fin (real_of_int i))"
| "py_float env (PFloat f) = Inr f"
| "py_float env (PStr s) = parse_float env s"

text \<open>Truth value of \<^verbatim>\<open>x\<close> in \<^verbatim>\<open>if x\<close>.\<close>

fun py_truthy :: "pyval \<Rightarrow> bool" where
  "py_truthy PNone = False"
| "py_truthy (PBool b) = b"
| "py_truthy (PInt i) = (i \<noteq> 0)"
| "py_truthy (PFloat NaN) = True"
| "py_truthy (PFloat (Fin x)) = (x \<noteq> 0)"
| "py_truthy (PStr s) = (s \<noteq> [])"

text \<open>The numeric reading of a value in a comparison; \<^verbatim>\<open>None\<close> and str have none.\<close>

fun py_num :: "pyval \<Rightarrow> pyfloat option" where
  "py_num PNone = None"
| "py_num (PBool b) = Some (Fin (if b then 1 else 0))"
| "py_num (PInt i) = Some (Fin (real_of_int i))"
| "py_num (PFloat f) = Some f"
| "py_num (PStr s) = None"

fun str_lt :: "string \<Rightarrow> string \<Rightarrow> bool" where
  "str_lt [] [] = False"
| "str_lt [] (y # ys) = True"
| "str_lt (x # xs) [] = False"
| "str_lt (x # xs) (y # ys) =
     ((of_char x :: nat) < of_char y \<or> (x = y \<and> str_lt xs ys))"

text \<open>The comparison operators of a condition. A comparison with NaN is false.\<close>

definition op_match :: "string \<Rightarrow> 'a::linorder \<Rightarrow> 'a \<Rightarrow> bool" where
  "op_match op a b =
     ((op = ''>'' \<and> a > b) \<or> (op = ''>='' \<and> a \<ge> b) \<or> (op = ''<'' \<and> a < b)
      \<or> (op = ''<='' \<and> a \<le> b) \<or> (op = ''=='' \<and> a = b))"

definition is_compare_op :: "string \<Rightarrow> bool" where
  "is_compare_op op = (op \<in> {''>'', ''>='', ''<'', ''<='', ''==''})"

text \<open>\<^verbatim>\<open>a < b\<close> on two values: numbers compare as numbers, two strs by code points,
  anything else raises TypeError.\<close>

definition py_lt :: "pyval \<Rightarrow> pyval \<Rightarrow> py_error + bool" where
  "py_lt a b =
     (case (py_num a, py_num b) of
        (Some (Fin x), Some (Fin y)) \<Rightarrow> Inr (x < y)
      | (Some _, Some _) \<Rightarrow> Inr False
      | _ \<Rightarrow> (case (a, b) of (PStr s, PStr t) \<Rightarrow> Inr (str_lt s t) | _ \<Rightarrow> Inl TypeError))"

text \<open>
  The \<^verbatim>\<open>match = (op == '>' and num > thr) or ...\<close> of a numeric condition: the one
  comparison that the operator selects is evaluated, and raises TypeError when the
  threshold is not a number.
\<close>

definition numeric_match :: "string \<Rightarrow> pyfloat \<Rightarrow> pyval \<Rightarrow> py_error + bool" where
  "numeric_match op num thr =
     (if is_compare_op op then
        (case py_num thr of
           None \<Rightarrow> Inl TypeError
         | Some NaN \<Rightarrow> Inr False
         | Some (Fin y) \<Rightarrow> (case num of NaN \<Rightarrow> Inr False | Fin x \<Rightarrow> Inr (op_match op x y)))
      else Inr False)"

definition lower_char :: "char \<Rightarrow> char" where
  "lower_char c = (let n = (of_char c :: nat) in
     if (65 \<le> n \<and> n \<le> 90) \<or> (192 \<le> n \<and> n \<le> 222 \<and> n \<noteq> 215) then char_of (n + 32) else c)"

definition py_lower :: "string \<Rightarrow> string" where
  "py_lower s = map lower_char s"

text \<open>\<^verbatim>\<open>sep.join(xs)\<close>.\<close>

fun join :: "string \<Rightarrow> string list \<Rightarrow> string" where
  "join sep [] = []"
| "join sep [x] = x"
| "join sep (x # y # ys) = x @ sep @ join sep (y # ys)"

section \<open>Dataset, rules and style map\<close>

text \<open>
  A DataFrame is its column labels and its rows in order, a row giving the value under
  each label (\<^verbatim>\<open>row[column]\<close>; it is read only under a label of the frame). The
  position \<^verbatim>\<open>df.index.get_loc(idx)\<close> of a row is its place in that order, and
  \<^verbatim>\<open>df.columns.get_loc(c)\<close> is the place of the label among the (distinct) labels.
\<close>

record dataframe =
  columns :: "string list"
  records :: "(string \<Rightarrow> pyval) list"

definition get_loc :: "string list \<Rightarrow> string \<Rightarrow> nat" where
  "get_loc cols c = length (takeWhile (\<lambda>x. x \<noteq> c) cols)"

record style =
  bg_color :: "string option"
  bold :: "bool option"

text \<open>The dict of a condition: each field is \<open>None\<close> when the key is absent.\<close>

record condition =
  c_type :: "string option"
  c_value :: "pyval option"
  c_operator :: "string option"
  c_compare_to :: "string option"
  c_compare_column :: "string option"
  c_scale_type :: "string option"
  c_color_map :: "(string \<times> string) list option"
  c_mode :: "string option"
  c_colors :: "string list option"
  c_min :: "pyval option"
  c_mid :: "pyval option"
  c_max :: "pyval option"

record rule =
  r_scope :: "string option"
  r_target_column :: "string option"
  r_condition :: condition
  r_style :: style

record style_map =
  rows :: "nat \<Rightarrow> style option"
  cells :: "nat \<times> nat \<Rightarrow> style option"
  warnings :: "string list"

definition empty_style_map :: style_map where
  "empty_style_map = \<lparr>rows = Map.empty, cells = Map.empty, warnings = []\<rparr>"

definition add_warning :: "string \<Rightarrow> style_map \<Rightarrow> style_map" where
  "add_warning w sm = sm\<lparr>warnings := warnings sm @ [w]\<rparr>"

definition get_or :: "'a \<Rightarrow> 'a option \<Rightarrow> 'a" where
  "get_or d x = (case x of None \<Rightarrow> d | Some v \<Rightarrow> v)"

section \<open>The loop over the rows\<close>

text \<open>
  Every \<^verbatim>\<open>for idx, row in df.iterrows()\<close> of the evaluator does one of three things
  with a row: it stores a style under a key, it records something about the row (a parse
  failure, an unmapped value), or it passes. \<open>for_rows\<close> runs such a body over the rows
  from position \<open>i\<close> on, threading the mapping that is written and the list of what was
  recorded.
\<close>

datatype ('k, 'n) action = Put 'k style | Note 'n | Pass

fun for_rows :: "(nat \<Rightarrow> (string \<Rightarrow> pyval) \<Rightarrow> ('k, 'n) action) \<Rightarrow> nat \<Rightarrow> (string \<Rightarrow> pyval) list
    \<Rightarrow> ('k \<Rightarrow> style option) \<times> 'n list \<Rightarrow> ('k \<Rightarrow> style option) \<times> 'n list" where
  "for_rows body i [] acc = acc"
| "for_rows body i (row # rest) (m, notes) =
     (case body i row of
        Put k st \<Rightarrow> for_rows body (Suc i) rest (m(k \<mapsto> st), notes)
      | Note n \<Rightarrow> for_rows body (Suc i) rest (m, notes @ [n])
      | Pass \<Rightarrow> for_rows body (Suc i) rest (m, notes))"

section \<open>Date comparison targets\<close>

definition sq :: string where
  "sq = [CHR 0x27]"

definition missing_target :: string where
  "missing_target = ''date_compare missing '' @ sq @ ''compare_to'' @ sq @ '' or '' @ sq @ ''value'' @ sq"

text \<open>
  The target date of a \<^verbatim>\<open>date_compare\<close> condition: either a date, or the warning that
  is appended before the rule is left with \<^verbatim>\<open>continue\<close>. The row scope and the cell
  scope hold the same code, apart from the text after \<^verbatim>\<open>compare_to='...'\<close> when the
  name is not bound (\<open>not_found\<close>). The lookup of a named date and its conversion are
  inside \<^verbatim>\<open>try\<close>; the conversion of the literal \<^verbatim>\<open>value\<close> is not.
\<close>

datatype target = Resolved int | Unresolved string

definition resolve_target_date :: "pyenv \<Rightarrow> string \<Rightarrow> condition \<Rightarrow> py_error + target" where
  "resolve_target_date env not_found condition =
     (let compare_to = c_compare_to condition;
          compare_value = c_value condition
      in if compare_to = Some ''today'' then Inr (Resolved (date_of (now_utc env + sg_tz)))
         else if compare_to = Some ''start_date'' \<or> compare_to = Some ''end_date'' then
           (let name = get_or [] compare_to in
            case module_globals env name of
              None \<Rightarrow> Inr (Unresolved (''compare_to='' @ sq @ name @ sq @ not_found))
            | Some PNone \<Rightarrow> Inr (Unresolved (''compare_to='' @ sq @ name @ sq @ not_found))
            | Some v \<Rightarrow>
                (case to_datetime env v of
                   DtRaises msg \<Rightarrow>
                     Inr (Unresolved (''Error accessing '' @ sq @ name @ sq @ '': '' @ msg))
                 | NaT \<Rightarrow> Inr (Unresolved (''compare_to='' @ sq @ name @ sq @ '' not parseable''))
                 | Ts t \<Rightarrow> Inr (Resolved (date_of t))))
         else
           (case compare_value of
              None \<Rightarrow> Inr (Unresolved missing_target)
            | Some v \<Rightarrow>
                if py_truthy v then
                  (case to_datetime env v of
                     DtRaises msg \<Rightarrow> Inl (LibraryError msg)
                   | NaT \<Rightarrow>
                       Inr (Unresolved (''Fixed date '' @ sq @ py_str env v @ sq @ '' not parseable''))
                   | Ts t \<Rightarrow> Inr (Resolved (date_of t)))
                else Inr (Unresolved missing_target)))"

text \<open>The body of the loop of a \<^verbatim>\<open>date_compare\<close> condition, all of it inside
  \<^verbatim>\<open>try\<close>; \<open>key\<close> is the key that the scope writes for the row at a position.\<close>

definition date_compare_body ::
    "pyenv \<Rightarrow> string \<Rightarrow> string \<Rightarrow> int \<Rightarrow> (nat \<Rightarrow> 'k) \<Rightarrow> style \<Rightarrow> nat \<Rightarrow> (string \<Rightarrow> pyval)
     \<Rightarrow> ('k, unit) action" where
  "date_compare_body env target_column op target_date key st i row =
     (case to_datetime env (row target_column) of
        Ts cell_date \<Rightarrow>
          if op_match op (date_of cell_date) target_date then Put (key i) st else Pass
      | _ \<Rightarrow> Note ())"

section \<open>Row scope\<close>

definition row_scope ::
    "pyenv \<Rightarrow> dataframe \<Rightarrow> string \<Rightarrow> condition \<Rightarrow> style \<Rightarrow> style_map \<Rightarrow> py_error + style_map" where
  "row_scope env df target_column condition st sm =
     (let cond_type = c_type condition in
      if cond_type = Some ''contains'' then
        (let search = py_lower (py_str env (get_or (PStr []) (c_value condition)));
             res = for_rows
               (\<lambda>i row. if sublist search (py_lower (py_str env (row target_column)))
                         then Put i st else (Pass :: (nat, unit) action))
               0 (records df) (rows sm, [])
         in Inr (sm\<lparr>rows := fst res\<rparr>))
      else if cond_type = Some ''equals'' then
        (let val = get_or (PStr []) (c_value condition);
             res = for_rows
               (\<lambda>i row. if py_strip (py_str env (row target_column)) = py_str env val
                         then Put i st else (Pass :: (nat, unit) action))
               0 (records df) (rows sm, [])
         in Inr (sm\<lparr>rows := fst res\<rparr>))
      else if cond_type = Some ''date_compare'' then
        (let op = get_or ''>'' (c_operator condition) in
         bind_result (resolve_target_date env '' not found in context'' condition) (\<lambda>tgt.
           case tgt of
             Unresolved w \<Rightarrow> Inr (add_warning w sm)
           | Resolved target_date \<Rightarrow>
               (let res = for_rows
                      (date_compare_body env target_column op target_date (\<lambda>i. i) st)
                      0 (records df) (rows sm, []);
                    parse_failures = length (snd res);
                    sm1 = sm\<lparr>rows := fst res\<rparr>
                in if parse_failures \<noteq> 0 then
                     Inr (add_warning (''date_compare on '' @ sq @ target_column @ sq @ '': ''
                            @ str_int (int parse_failures) @ '' rows unparseable'') sm1)
                   else Inr sm1)))
      else Inr sm)"

section \<open>Cell scope\<close>

definition date_compare_column ::
    "pyenv \<Rightarrow> dataframe \<Rightarrow> string \<Rightarrow> condition \<Rightarrow> style \<Rightarrow> style_map \<Rightarrow> py_error + style_map" where
  "date_compare_column env df target_column condition st sm =
     (let op = get_or ''>'' (c_operator condition);
          compare_column = c_compare_column condition
      in if compare_column = None \<or> compare_column = Some []
            \<or> get_or [] compare_column \<notin> set (columns df) then
           Inr (add_warning (''Compare column '' @ sq @ get_or ''None'' compare_column @ sq
                  @ '' not found'') sm)
         else
           (let cc = get_or [] compare_column;
                res = for_rows
                  (\<lambda>i row.
                     case to_datetime env (row target_column) of
                       Ts d1 \<Rightarrow>
                         (case to_datetime env (row cc) of
                            Ts d2 \<Rightarrow>
                              if op_match op d1 d2
                              then Put (i + 1, get_loc (columns df) target_column) st
                              else Pass
                          | _ \<Rightarrow> Note ())
                     | _ \<Rightarrow> Note ())
                  0 (records df) (cells sm, []);
                parse_failures = length (snd res);
                sm1 = sm\<lparr>cells := fst res\<rparr>
            in if parse_failures \<noteq> 0 then
                 Inr (add_warning (sq @ target_column @ sq @ '' vs '' @ sq @ cc @ sq @ '': ''
                        @ str_int (int parse_failures) @ '' invalid dates'') sm1)
               else Inr sm1))"

definition categorical_warning :: "pyenv \<Rightarrow> string \<Rightarrow> string list \<Rightarrow> string" where
  "categorical_warning env target_column unmapped =
     (let head = join '', '' (take 3 (set_order env unmapped));
          suffix = (if length unmapped > 3 then ''...'' else [])
      in sq @ target_column @ sq @ '' categorical color scale: ''
           @ str_int (int (length unmapped)) @ '' unmapped values ('' @ head @ suffix @ '')'')"

text \<open>
  The categorical colour scale. \<^verbatim>\<open>color_map\<close> is a dict, given by its items (keys
  distinct); \<^verbatim>\<open>unmapped\<close> is a set, kept as the list of its distinct elements and
  iterated in the order of the environment.
\<close>

definition color_scale_categorical ::
    "pyenv \<Rightarrow> dataframe \<Rightarrow> string \<Rightarrow> nat \<Rightarrow> condition \<Rightarrow> style_map \<Rightarrow> py_error + style_map" where
  "color_scale_categorical env df target_column col_idx condition sm =
     (let color_map = get_or [] (c_color_map condition) in
      if color_map = [] then
        Inr (add_warning (''color_scale categorical missing '' @ sq @ ''color_map'' @ sq) sm)
      else
        (let res = for_rows
               (\<lambda>i row.
                  let val = py_str env (row target_column) in
                  case map_of color_map val of
                    Some bg \<Rightarrow> Put (i + 1, col_idx) \<lparr>bg_color = Some bg, bold = None\<rparr>
                  | None \<Rightarrow> Note val)
               0 (records df) (cells sm, []);
             unmapped = remdups (snd res);
             sm1 = sm\<lparr>cells := fst res\<rparr>
         in if unmapped \<noteq> [] then
              Inr (add_warning (categorical_warning env target_column unmapped) sm1)
            else Inr sm1))"

section \<open>Gradient colour scales\<close>

definition default_colors :: "string list" where
  "default_colors = [''#00FF00'', ''#FFFF00'', ''#FF0000'']"

text \<open>\<^verbatim>\<open>min(xs)\<close> and \<^verbatim>\<open>max(xs)\<close> on a list that is not empty.\<close>

definition py_min :: "real list \<Rightarrow> real" where
  "py_min xs = fold min (tl xs) (hd xs)"

definition py_max :: "real list \<Rightarrow> real" where
  "py_max xs = fold max (tl xs) (hd xs)"

text \<open>
  \<^verbatim>\<open>
  numeric_values = []
  for idx, row in df.iterrows():
      try:
          v = float(row[target_column])
          if not pd.isna(v):
              numeric_values.append((idx, v))
      except Exception:
          continue
  \<close>
\<close>

fun scan_numeric ::
    "pyenv \<Rightarrow> string \<Rightarrow> nat \<Rightarrow> (string \<Rightarrow> pyval) list \<Rightarrow> (nat \<times> real) list \<Rightarrow> (nat \<times> real) list" where
  "scan_numeric env target_column i [] numeric_values = numeric_values"
| "scan_numeric env target_column i (row # rest) numeric_values =
     (case py_float env (row target_column) of
        Inr (Fin v) \<Rightarrow> scan_numeric env target_column (Suc i) rest (numeric_values @ [(i, v)])
      | _ \<Rightarrow> scan_numeric env target_column (Suc i) rest numeric_values)"

text \<open>
  \<^verbatim>\<open>
  date_values, failures = [], 0
  for idx, row in df.iterrows():
      try:
          d = pd.to_datetime(row[target_column], errors='coerce')
          if pd.isna(d):
              failures += 1
              continue
          date_values.append((idx, d.toordinal()))
      except Exception:
          failures += 1
  \<close>
\<close>

fun scan_dates ::
    "pyenv \<Rightarrow> string \<Rightarrow> nat \<Rightarrow> (string \<Rightarrow> pyval) list \<Rightarrow> (nat \<times> real) list \<times> nat
     \<Rightarrow> (nat \<times> real) list \<times> nat" where
  "scan_dates env target_column i [] acc = acc"
| "scan_dates env target_column i (row # rest) (date_values, failures) =
     (case to_datetime env (row target_column) of
        Ts d \<Rightarrow>
          scan_dates env target_column (Suc i) rest
            (date_values @ [(i, real_of_int (date_of d))], failures)
      | _ \<Rightarrow> scan_dates env target_column (Suc i) rest (date_values, Suc failures))"

text \<open>
  \<^verbatim>\<open>
  for idx, value in numeric_values:
      bg = get_gradient_color(value, min_val, mid_val, max_val, colors3)
      style_map['cells'][(df.index.get_loc(idx) + 1, col_idx)] = {'bg_color': bg}
  \<close>
  An exception of \<^verbatim>\<open>get_gradient_color\<close> is not caught.
\<close>

fun apply_gradient ::
    "real \<Rightarrow> real \<Rightarrow> real \<Rightarrow> string list \<Rightarrow> nat \<Rightarrow> (nat \<times> real) list
     \<Rightarrow> (nat \<times> nat \<Rightarrow> style option) \<Rightarrow> py_error + (nat \<times> nat \<Rightarrow> style option)" where
  "apply_gradient min_val mid_val max_val colors3 col_idx [] m = Inr m"
| "apply_gradient min_val mid_val max_val colors3 col_idx ((idx, v) # rest) m =
     (case get_gradient_color v min_val mid_val max_val colors3 of
        Inl e \<Rightarrow> Inl e
      | Inr bg \<Rightarrow>
          apply_gradient min_val mid_val max_val colors3 col_idx rest
            (m((idx + 1, col_idx) \<mapsto> \<lparr>bg_color = Some bg, bold = None\<rparr>)))"

definition write_gradient ::
    "real \<Rightarrow> real \<Rightarrow> real \<Rightarrow> string list \<Rightarrow> nat \<Rightarrow> (nat \<times> real) list \<Rightarrow> style_map
     \<Rightarrow> py_error + style_map" where
  "write_gradient min_val mid_val max_val colors3 col_idx vals sm =
     bind_result (apply_gradient min_val mid_val max_val colors3 col_idx vals (cells sm))
       (\<lambda>m. Inr (sm\<lparr>cells := m\<rparr>))"

definition is_none :: "pyval option \<Rightarrow> bool" where
  "is_none x = (x = None \<or> x = Some PNone)"

text \<open>
  The numeric colour scale. In manual mode the bounds are the values of the condition as
  they are: \<^verbatim>\<open>min_val < mid_val < max_val\<close> compares them (the second comparison only
  when the first holds), and \<^verbatim>\<open>get_gradient_color\<close> then compares a float with
  them, which raises TypeError on the first value when they are strs. Neither is
  inside \<^verbatim>\<open>try\<close>.
\<close>

definition color_scale_numeric ::
    "pyenv \<Rightarrow> dataframe \<Rightarrow> string \<Rightarrow> nat \<Rightarrow> condition \<Rightarrow> style_map \<Rightarrow> py_error + style_map" where
  "color_scale_numeric env df target_column col_idx condition sm =
     (let mode = get_or ''auto'' (c_mode condition);
          colors3 = get_or default_colors (c_colors condition)
      in if length colors3 \<noteq> 3 then
           Inr (add_warning ''color_scale numeric requires exactly 3 colors'' sm)
         else
           (let numeric_values = scan_numeric env target_column 0 (records df) [] in
            if numeric_values = [] then
              Inr (add_warning (sq @ target_column @ sq @ '' has no valid numeric values'') sm)
            else if mode = ''auto'' then
              (let all_vals = map snd numeric_values;
                   min_val = py_min all_vals;
                   max_val = py_max all_vals;
                   mid_val = (min_val + max_val) / 2
               in write_gradient min_val mid_val max_val colors3 col_idx numeric_values sm)
            else
              (let invalid = Inr (add_warning ''color_scale manual requires valid min < mid < max'' sm) in
               if is_none (c_min condition) \<or> is_none (c_mid condition) \<or> is_none (c_max condition)
               then invalid
               else
                 (let min_val = get_or PNone (c_min condition);
                      mid_val = get_or PNone (c_mid condition);
                      max_val = get_or PNone (c_max condition)
                  in bind_result (py_lt min_val mid_val) (\<lambda>lt1.
                       if \<not> lt1 then invalid
                       else bind_result (py_lt mid_val max_val) (\<lambda>lt2.
                         if \<not> lt2 then invalid
                         else (case (py_num min_val, py_num mid_val, py_num max_val) of
                                 (Some (Fin a), Some (Fin b), Some (Fin c)) \<Rightarrow>
                                   write_gradient a b c colors3 col_idx numeric_values sm
                               | _ \<Rightarrow> Inl TypeError)))))))"

text \<open>\<^verbatim>\<open>pd.to_datetime(x).toordinal()\<close> inside \<^verbatim>\<open>try\<close>: the day number, or nothing
  when the conversion or the call raises (an absent key, an unparsable value).\<close>

definition strict_ordinal :: "pyenv \<Rightarrow> pyval option \<Rightarrow> int option" where
  "strict_ordinal env x =
     (case x of
        None \<Rightarrow> None
      | Some v \<Rightarrow> (case to_datetime env v of Ts t \<Rightarrow> Some (date_of t) | _ \<Rightarrow> None))"

definition color_scale_date ::
    "pyenv \<Rightarrow> dataframe \<Rightarrow> string \<Rightarrow> nat \<Rightarrow> condition \<Rightarrow> style_map \<Rightarrow> py_error + style_map" where
  "color_scale_date env df target_column col_idx condition sm =
     (let mode = get_or ''auto'' (c_mode condition);
          colors3 = get_or default_colors (c_colors condition)
      in if length colors3 \<noteq> 3 then
           Inr (add_warning ''color_scale date requires exactly 3 colors'' sm)
         else
           (let scanned = scan_dates env target_column 0 (records df) ([], 0);
                date_values = fst scanned;
                failures = snd scanned
            in if date_values = [] then
                 Inr (add_warning (sq @ target_column @ sq @ '' has no valid dates'') sm)
               else
                 (let sm1 = (if failures \<noteq> 0 then
                               add_warning (sq @ target_column @ sq @ '' date color scale: ''
                                 @ str_int (int failures) @ '' invalid dates'') sm
                             else sm)
                  in if mode = ''auto'' then
                       (let vals = map snd date_values;
                            min_val = py_min vals;
                            max_val = py_max vals;
                            mid_val = (min_val + max_val) / 2
                        in write_gradient min_val mid_val max_val colors3 col_idx date_values sm1)
                     else
                       (case (strict_ordinal env (c_min condition),
                              strict_ordinal env (c_mid condition),
                              strict_ordinal env (c_max condition)) of
                          (Some a, Some b, Some c) \<Rightarrow>
                            if \<not> (a < b \<and> b < c) then
                              Inr (add_warning ''date scale requires min < mid < max'' sm1)
                            else write_gradient (real_of_int a) (real_of_int b) (real_of_int c)
                                   colors3 col_idx date_values sm1
                        | _ \<Rightarrow> Inr (add_warning ''date scale manual: invalid date(s)'' sm1)))))"

definition cell_scope ::
    "pyenv \<Rightarrow> dataframe \<Rightarrow> string \<Rightarrow> condition \<Rightarrow> style \<Rightarrow> style_map \<Rightarrow> py_error + style_map" where
  "cell_scope env df target_column condition st sm =
     (let col_idx = get_loc (columns df) target_column;
          cond_type = c_type condition
      in if cond_type = Some ''equals'' then
           (let val = get_or PNone (c_value condition);
                res = for_rows
                  (\<lambda>i row. if py_str env (row target_column) = py_str env val
                            then Put (i + 1, col_idx) st else (Pass :: (nat \<times> nat, unit) action))
                  0 (records df) (cells sm, [])
            in Inr (sm\<lparr>cells := fst res\<rparr>))
         else if cond_type = Some ''contains'' then
           (let val = py_lower (py_str env (get_or (PStr []) (c_value condition)));
                res = for_rows
                  (\<lambda>i row. if sublist val (py_lower (py_str env (row target_column)))
                            then Put (i + 1, col_idx) st else (Pass :: (nat \<times> nat, unit) action))
                  0 (records df) (cells sm, [])
            in Inr (sm\<lparr>cells := fst res\<rparr>))
         else if cond_type = Some ''numeric'' then
           (let op = get_or ''>'' (c_operator condition);
                thr = get_or (PInt 0) (c_value condition);
                res = for_rows
                  (\<lambda>i row.
                     case py_float env (row target_column) of
                       Inl e \<Rightarrow> (Pass :: (nat \<times> nat, unit) action)
                     | Inr num \<Rightarrow>
                         (case numeric_match op num thr of
                            Inl e \<Rightarrow> Pass
                          | Inr matched \<Rightarrow> if matched then Put (i + 1, col_idx) st else Pass))
                  0 (records df) (cells sm, [])
            in Inr (sm\<lparr>cells := fst res\<rparr>))
         else if cond_type = Some ''date_compare'' then
           (let op = get_or ''>'' (c_operator condition) in
            bind_result (resolve_target_date env '' not found'' condition) (\<lambda>tgt.
              case tgt of
                Unresolved w \<Rightarrow> Inr (add_warning w sm)
              | Resolved target_date \<Rightarrow>
                  (let res = for_rows
                         (date_compare_body env target_column op target_date
                            (\<lambda>i. (i + 1, col_idx)) st)
                         0 (records df) (cells sm, []);
                       parse_failures = length (snd res);
                       sm1 = sm\<lparr>cells := fst res\<rparr>
                   in if parse_failures \<noteq> 0 then
                        Inr (add_warning (sq @ target_column @ sq @ '' date comparison: ''
                               @ str_int (int parse_failures) @ '' invalid dates'') sm1)
                      else Inr sm1)))
         else if cond_type = Some ''date_compare_column'' then
           date_compare_column env df target_column condition st sm
         else if cond_type = Some ''color_scale'' then
           (let scale_type = get_or ''numeric'' (c_scale_type condition) in
            if scale_type = ''categorical'' then
              color_scale_categorical env df target_column col_idx condition sm
            else if scale_type = ''numeric'' then
              color_scale_numeric env df target_column col_idx condition sm
            else if scale_type = ''date'' then
              color_scale_date env df target_column col_idx condition sm
            else Inr sm)
         else Inr sm)"

section \<open>The evaluator\<close>

text \<open>One iteration of \<^verbatim>\<open>for rule in rules\<close>.\<close>

definition apply_rule :: "pyenv \<Rightarrow> dataframe \<Rightarrow> rule \<Rightarrow> style_map \<Rightarrow> py_error + style_map" where
  "apply_rule env df rule sm =
     (let scope = get_or ''cell'' (r_scope rule);
          condition = r_condition rule;
          st = r_style rule
      in if scope = ''row'' then
           (case r_target_column rule of
              None \<Rightarrow> Inr sm
            | Some target_column \<Rightarrow>
                if target_column = [] \<or> target_column \<notin> set (columns df) then Inr sm
                else row_scope env df target_column condition st sm)
         else if scope = ''cell'' then
           (case r_target_column rule of
              None \<Rightarrow> Inr sm
            | Some target_column \<Rightarrow>
                if target_column = [] \<or> target_column \<notin> set (columns df) then Inr sm
                else cell_scope env df target_column condition st sm)
         else Inr sm)"

fun apply_rules :: "pyenv \<Rightarrow> dataframe \<Rightarrow> rule list \<Rightarrow> style_map \<Rightarrow> py_error + style_map" where
  "apply_rules env df [] sm = Inr sm"
| "apply_rules env df (rule # rest) sm =
     (case apply_rule env df rule sm of
        Inl e \<Rightarrow> Inl e
      | Inr sm' \<Rightarrow> apply_rules env df rest sm')"

definition evaluate_formatting_rules :: "pyenv \<Rightarrow> dataframe \<Rightarrow> rule list \<Rightarrow> py_error + style_map" where
  "evaluate_formatting_rules env df rules =
     (if rules = [] then Inr empty_style_map
      else apply_rules env df rules empty_style_map)"

section \<open>Notions used in the statements\<close>




text \<open>The style map \<open>sm\<close> with the writes and warnings of \<open>d\<close> laid over it: a key of \<open>d\<close>
  replaces the entry of \<open>sm\<close>, the warnings of \<open>d\<close> follow those of \<open>sm\<close>.\<close>

definition overlay :: "style_map \<Rightarrow> style_map \<Rightarrow> style_map" where
  "overlay sm d = \<lparr>rows = rows sm ++ rows d, cells = cells sm ++ cells d,
     warnings = warnings sm @ warnings d\<rparr>"

text \<open>What a loop over all rows writes and records, started from nothing.\<close>

definition writes_of ::
    "(nat \<Rightarrow> (string \<Rightarrow> pyval) \<Rightarrow> ('k, 'n) action) \<Rightarrow> (string \<Rightarrow> pyval) list \<Rightarrow> ('k \<Rightarrow> style option)" where
  "writes_of body rs = fst (for_rows body 0 rs (Map.empty, []))"

definition notes_of ::
    "(nat \<Rightarrow> (string \<Rightarrow> pyval) \<Rightarrow> ('k, 'n) action) \<Rightarrow> (string \<Rightarrow> pyval) list \<Rightarrow> 'n list" where
  "notes_of body rs = snd (for_rows body 0 rs (Map.empty, []))"

section \<open>An environment and data for the examples\<close>

text \<open>
  The examples use cells that are ints or strs which are neither numbers nor dates, so
  in their environment \<^verbatim>\<open>float\<close> raises ValueError on every str and
  \<^verbatim>\<open>pd.to_datetime\<close> returns \<^verbatim>\<open>NaT\<close>; no float is printed, no global is bound, a
  set is iterated in the order of insertion, and the clock stands at midnight of the day
  739261 (2025-01-10) UTC.
\<close>

definition example_env :: pyenv where
  "example_env = \<lparr>float_repr = (\<lambda>x. []), parse_float = (\<lambda>s. Inl ValueError),
     to_datetime = (\<lambda>v. NaT), now_utc = 739261 * 86400 * 1000000000, local_utc_offset = 0,
     module_globals = Map.empty, set_order = (\<lambda>xs. xs)\<rparr>"

definition no_condition :: condition where
  "no_condition = \<lparr>c_type = None, c_value = None, c_operator = None, c_compare_to = None,
     c_compare_column = None, c_scale_type = None, c_color_map = None, c_mode = None,
     c_colors = None, c_min = None, c_mid = None, c_max = None\<rparr>"

definition highlight :: style where
  "highlight = \<lparr>bg_color = Some ''#FED7D7'', bold = Some True\<rparr>"

definition shade :: style where
  "shade = \<lparr>bg_color = Some ''#EEF2FF'', bold = Some False\<rparr>"

definition orders :: dataframe where
  "orders = \<lparr>columns = [''Item'', ''Score''],
     records = [(\<lambda>c. if c = ''Item'' then PStr ''Item 1'' else PInt 95),
                (\<lambda>c. if c = ''Item'' then PStr ''Item 2'' else PStr ''n/a'')]\<rparr>"

definition missing_column_rule :: rule where
  "missing_column_rule = \<lparr>r_scope = Some ''cell'', r_target_column = Some ''Status'',
     r_condition = no_condition\<lparr>c_type := Some ''equals'', c_value := Some (PStr ''Active'')\<rparr>,
     r_style = highlight\<rparr>"

definition numeric_rule :: rule where
  "numeric_rule = \<lparr>r_scope = Some ''cell'', r_target_column = Some ''Score'',
     r_condition = no_condition\<lparr>c_type := Some ''numeric'', c_operator := Some ''>='',
       c_value := Some (PInt 90)\<rparr>,
     r_style = highlight\<rparr>"

definition compare_rule :: rule where
  "compare_rule = \<lparr>r_scope = Some ''cell'', r_target_column = Some ''Score'',
     r_condition = no_condition\<lparr>c_type := Some ''date_compare_column'',
       c_compare_column := Some ''Start''\<rparr>,
     r_style = highlight\<rparr>"

definition regions :: dataframe where
  "regions = \<lparr>columns = [''Category''],
     records = [(\<lambda>c. PStr ''North''), (\<lambda>c. PStr '' North ''), (\<lambda>c. PStr ''South'')]\<rparr>"

definition north_row_rule :: rule where
  "north_row_rule = \<lparr>r_scope = Some ''row'', r_target_column = Some ''Category'',
     r_condition = no_condition\<lparr>c_type := Some ''equals'', c_value := Some (PStr ''North'')\<rparr>,
     r_style = shade\<rparr>"

definition north_cell_rule :: rule where
  "north_cell_rule = \<lparr>r_scope = Some ''cell'', r_target_column = Some ''Category'',
     r_condition = no_condition\<lparr>c_type := Some ''equals'', c_value := Some (PStr ''North'')\<rparr>,
     r_style = highlight\<rparr>"

definition scores :: dataframe where
  "scores = \<lparr>columns = [''Score''],
     records = [(\<lambda>c. PInt 1), (\<lambda>c. PInt 4), (\<lambda>c. PInt 7)]\<rparr>"

definition bad_bounds_rule :: rule where
  "bad_bounds_rule = \<lparr>r_scope = Some ''cell'', r_target_column = Some ''Score'',
     r_condition = no_condition\<lparr>c_type := Some ''color_scale'', c_scale_type := Some ''numeric'',
       c_mode := Some ''manual'', c_min := Some (PStr ''low''), c_mid := Some (PInt 5),
       c_max := Some (PInt 10)\<rparr>,
     r_style = highlight\<rparr>"

definition named_colors_rule :: rule where
  "named_colors_rule = \<lparr>r_scope = Some ''cell'', r_target_column = Some ''Score'',
     r_condition = no_condition\<lparr>c_type := Some ''color_scale'', c_scale_type := Some ''numeric'',
       c_colors := Some [''red'', ''yellow'', ''green'']\<rparr>,
     r_style = highlight\<rparr>"

definition statuses :: dataframe where
  "statuses = \<lparr>columns = [''Status''],
     records = [(\<lambda>c. PStr ''Active''), (\<lambda>c. PStr ''Unknown'')]\<rparr>"

definition status_rule :: rule where
  "status_rule = \<lparr>r_scope = Some ''cell'', r_target_column = Some ''Status'',
     r_condition = no_condition\<lparr>c_type := Some ''color_scale'', c_scale_type := Some ''categorical'',
       c_color_map := Some [(''Active'', ''#111111'')]\<rparr>,
     r_style = highlight\<rparr>"



definition gradient_writes ::
    "real \<Rightarrow> real \<Rightarrow> real \<Rightarrow> string list \<Rightarrow> nat \<Rightarrow> (nat \<times> real) list
     \<Rightarrow> py_error + (nat \<times> nat \<Rightarrow> style option)" where
  "gradient_writes min_val mid_val max_val colors3 col_idx vals =
     apply_gradient min_val mid_val max_val colors3 col_idx vals Map.empty"

definition north_cell_shade_rule :: rule where
  "north_cell_shade_rule = \<lparr>r_scope = Some ''cell'', r_target_column = Some ''Category'',
     r_condition = no_condition\<lparr>c_type := Some ''equals'', c_value := Some (PStr ''North'')\<rparr>,
     r_style = shade\<rparr>"

text \<open>The keys of the cells of \<open>n\<close> data rows in the column at \<open>ci\<close>: the position of
  the row plus one, for the header row, and the column.\<close>

definition cell_key :: "nat \<Rightarrow> nat \<Rightarrow> nat \<times> nat \<Rightarrow> bool" where
  "cell_key n ci k = (\<exists>j < n. k = (j + 1, ci))"

definition no_scores :: dataframe where
  "no_scores = \<lparr>columns = [''Score''], records = []\<rparr>"

definition score_scale_rule :: rule where
  "score_scale_rule = \<lparr>r_scope = Some ''cell'', r_target_column = Some ''Score'',
     r_condition = no_condition\<lparr>c_type := Some ''color_scale''\<rparr>,
     r_style = highlight\<rparr>"

section \<open>Basic facts\<close>

lemma bind_result_simps [simp]:
  "bind_result (Inr x) f = f x"
  "bind_result (Inl e) f = Inl e"
  by (simp_all add: bind_result_def)

lemma bind_result_Inr_iff:
  "bind_result r f = Inr y \<longleftrightarrow> (\<exists>x. r = Inr x \<and> f x = Inr y)"
  by (cases r) simp_all

lemma bind_result_Inl_iff:
  "bind_result r f = Inl e \<longleftrightarrow> r = Inl e \<or> (\<exists>x. r = Inr x \<and> f x = Inl e)"
  by (cases r) simp_all

lemma int_base16_error: "int_base16 s = Inl e \<Longrightarrow> e = ValueError"
  by (auto simp: int_base16_def Let_def split: if_splits option.splits)

lemma hex_to_rgb_error: "hex_to_rgb s = Inl e \<Longrightarrow> e = ValueError"
  by (auto simp: hex_to_rgb_def Let_def bind_result_Inl_iff dest: int_base16_error)

lemma interpolate_color_error: "interpolate_color a b f = Inl e \<Longrightarrow> e = ValueError"
  by (auto simp: interpolate_color_def bind_result_Inl_iff split: prod.splits dest: hex_to_rgb_error)

lemma py_index_error: "py_index xs i = Inl e \<Longrightarrow> e = IndexError"
  by (auto simp: py_index_def split: if_splits)

lemma py_index3 [simp]:
  "py_index [a, b, c] 0 = Inr a" "py_index [a, b, c] 1 = Inr b" "py_index [a, b, c] 2 = Inr c"
  "py_index [a, b, c] (Suc 0) = Inr b"
  by (simp_all add: py_index_def)






lemma py_int_of_float_int [simp]: "py_int_of_float (real_of_int n) = n"
  by (simp add: py_int_of_float_def)


lemma blend_one [simp]: "blend a b 1 = real_of_int b"
  by (simp add: blend_def)




section \<open>The gradient\<close>




text \<open>
  Claim C10. For \<open>min \<le> mid \<le> max\<close> the gradient never raises ZeroDivisionError: the
  quotient by \<open>mid - min\<close> is evaluated only for \<open>min < value \<le> mid\<close>, where
  \<open>mid - min > 0\<close>, and the quotient by \<open>max - mid\<close> only for \<open>mid < value < max\<close>, where
  \<open>max - mid > 0\<close>; outside \<open>(min, max)\<close>, and so everywhere when \<open>min = mid = max\<close>, the
  result is the first or the last stop and no quotient is evaluated. With three stops
  that \<^verbatim>\<open>hex_to_rgb\<close> reads, the function returns a colour.
\<close>

theorem gradient_no_zero_division:
  assumes "min_val \<le> mid_val" and "mid_val \<le> max_val"
  shows "get_gradient_color v min_val mid_val max_val colors \<noteq> Inl ZeroDivisionError
    \<and> (min_val < v \<and> v < max_val \<and> v \<le> mid_val \<longrightarrow>
          mid_val - min_val > 0
          \<and> get_gradient_color v min_val mid_val max_val colors
              = bind_result (py_index colors 0) (\<lambda>c0. bind_result (py_index colors 1) (\<lambda>c1.
                  interpolate_color c0 c1 ((v - min_val) / (mid_val - min_val)))))
    \<and> (mid_val < v \<and> v < max_val \<longrightarrow>
          max_val - mid_val > 0
          \<and> get_gradient_color v min_val mid_val max_val colors
              = bind_result (py_index colors 1) (\<lambda>c1. bind_result (py_index colors 2) (\<lambda>c2.
                  interpolate_color c1 c2 ((v - mid_val) / (max_val - mid_val)))))
    \<and> (\<not> (min_val < v \<and> v < max_val) \<longrightarrow>
          get_gradient_color v min_val mid_val max_val colors
            = py_index colors (if v \<le> min_val then 0 else 2))
    \<and> (min_val = max_val \<longrightarrow>
          get_gradient_color v min_val mid_val max_val colors
            = py_index colors (if v \<le> min_val then 0 else 2))
    \<and> (length colors = 3 \<and> (\<forall>c \<in> set colors. \<exists>rgb. hex_to_rgb c = Inr rgb) \<longrightarrow>
          (\<exists>c. get_gradient_color v min_val mid_val max_val colors = Inr c))"
proof -
  have nz: "get_gradient_color v min_val mid_val max_val colors \<noteq> Inl ZeroDivisionError"
    using assms
    by (auto simp: get_gradient_color_def py_truediv_def bind_result_Inl_iff
          dest: py_index_error interpolate_color_error)
  have total: "\<exists>c. get_gradient_color v min_val mid_val max_val colors = Inr c"
    if "length colors = 3" and "\<forall>c \<in> set colors. \<exists>rgb. hex_to_rgb c = Inr rgb"
  proof -
    from that(1) obtain c0 c1 c2 where cs: "colors = [c0, c1, c2]"
      by (cases colors; simp; cases "tl colors"; simp; cases "tl (tl colors)"; simp)
    from that(2) cs obtain x0 x1 x2
      where "hex_to_rgb c0 = Inr x0" "hex_to_rgb c1 = Inr x1" "hex_to_rgb c2 = Inr x2" by auto
    then show ?thesis using assms
      by (cases x0; cases x1; cases x2)
         (simp add: get_gradient_color_def py_truediv_def cs interpolate_color_def)
  qed
  show ?thesis
    using assms nz total by (auto simp: get_gradient_color_def py_truediv_def)
qed

text \<open>The theorem at \<open>min = mid = max = 5\<close> and at \<open>min = mid = 5\<close>, \<open>max = 9\<close>.\<close>

theorem gradient_no_zero_division_witness:
  "get_gradient_color 7 5 5 5 default_colors = Inr ''#FF0000''
   \<and> get_gradient_color 5 5 5 5 default_colors = Inr ''#00FF00''
   \<and> get_gradient_color 7 5 5 9 default_colors \<noteq> Inl ZeroDivisionError"
proof -
  have h: "(5::real) \<le> 5" "(5::real) \<le> 9" by simp_all
  from gradient_no_zero_division [OF h(1) h(1), of 7 default_colors]
  have 1: "get_gradient_color 7 5 5 5 default_colors = Inr ''#FF0000''"
    by (simp add: default_colors_def)
  from gradient_no_zero_division [OF h(1) h(1), of 5 default_colors]
  have 2: "get_gradient_color 5 5 5 5 default_colors = Inr ''#00FF00''"
    by (simp add: default_colors_def)
  from gradient_no_zero_division [OF h(1) h(2), of 7 default_colors]
  have 3: "get_gradient_color 7 5 5 9 default_colors \<noteq> Inl ZeroDivisionError" by (rule conjunct1)
  from 1 2 3 show ?thesis by simp
qed

section \<open>Facts about the loop over the rows\<close>

lemma for_rows_overlay:
  "for_rows body i rs (m, ns) =
     (m ++ fst (for_rows body i rs (Map.empty, [])), ns @ snd (for_rows body i rs (Map.empty, [])))"
proof (induction rs arbitrary: i m ns)
  case Nil
  show ?case by simp
next
  case (Cons row rest)
  show ?case
  proof (cases "body i row")
    case (Put k st)
    define X where "X = for_rows body (Suc i) rest (Map.empty, [])"
    have 1: "for_rows body (Suc i) rest (m(k \<mapsto> st), ns) = (m(k \<mapsto> st) ++ fst X, ns @ snd X)"
      unfolding X_def by (rule Cons.IH)
    have 2: "for_rows body (Suc i) rest (Map.empty(k \<mapsto> st), []) = (Map.empty(k \<mapsto> st) ++ fst X, [] @ snd X)"
      unfolding X_def by (rule Cons.IH)
    have 3: "m ++ (Map.empty(k \<mapsto> st) ++ fst X) = m(k \<mapsto> st) ++ fst X"
      by (simp add: map_add_assoc [symmetric])
    have "for_rows body i (row # rest) (m, ns) = for_rows body (Suc i) rest (m(k \<mapsto> st), ns)"
      using Put by simp
    moreover have "for_rows body i (row # rest) (Map.empty, []) = for_rows body (Suc i) rest (Map.empty(k \<mapsto> st), [])"
      using Put by simp
    ultimately show ?thesis by (simp only: 1 2 3 fst_conv snd_conv append_Nil)
  next
    case (Note n)
    define X where "X = for_rows body (Suc i) rest (Map.empty, [])"
    have 1: "for_rows body (Suc i) rest (m, ns @ [n]) = (m ++ fst X, (ns @ [n]) @ snd X)"
      unfolding X_def by (rule Cons.IH)
    have 2: "for_rows body (Suc i) rest (Map.empty, [] @ [n]) = (Map.empty ++ fst X, ([] @ [n]) @ snd X)"
      unfolding X_def by (rule Cons.IH)
    from Note show ?thesis using 1 2 by simp
  next
    case Pass
    then show ?thesis using Cons.IH [of "Suc i" m ns] by simp
  qed
qed

lemma for_rows_unwritten:
  assumes "\<forall>j < length rs. \<forall>st. body (i + j) (rs ! j) \<noteq> Put k st"
  shows "fst (for_rows body i rs (m, ns)) k = m k"
  using assms
proof (induction rs arbitrary: i m ns)
  case Nil
  show ?case by simp
next
  case (Cons row rest)
  from Cons.prems have head: "\<forall>st. body i row \<noteq> Put k st" by fastforce
  from Cons.prems have tail: "\<forall>j < length rest. \<forall>st. body (Suc i + j) (rest ! j) \<noteq> Put k st"
    by fastforce
  show ?case
  proof (cases "body i row")
    case (Put k' st)
    with head have ne: "k' \<noteq> k" by auto
    have "fst (for_rows body (Suc i) rest (m(k' \<mapsto> st), ns)) k = (m(k' \<mapsto> st)) k"
      by (rule Cons.IH [OF tail])
    with Put ne show ?thesis by simp
  next
    case (Note n)
    with Cons.IH [OF tail, of m "ns @ [n]"] show ?thesis by simp
  next
    case Pass
    with Cons.IH [OF tail, of m ns] show ?thesis by simp
  qed
qed

text \<open>A body that writes the row at position \<open>i\<close> under \<open>key i\<close> only, \<open>key\<close> injective.\<close>

lemma for_rows_at:
  assumes keyed: "\<And>i row k st. body i row = Put k st \<Longrightarrow> k = key i"
      and inj: "inj key"
      and j: "j < length rs"
  shows "fst (for_rows body i rs (m, ns)) (key (i + j)) =
           (case body (i + j) (rs ! j) of Put k st \<Rightarrow> Some st | _ \<Rightarrow> m (key (i + j)))"
  using j
proof (induction rs arbitrary: i j m ns)
  case Nil
  then show ?case by simp
next
  case (Cons row rest)
  show ?case
  proof (cases j)
    case 0
    have later: "\<forall>j' < length rest. \<forall>st. body (Suc i + j') (rest ! j') \<noteq> Put (key i) st"
    proof (intro allI impI notI)
      fix j' st assume "body (Suc i + j') (rest ! j') = Put (key i) st"
      from keyed [OF this] inj show False by (simp add: inj_eq)
    qed
    show ?thesis
    proof (cases "body i row")
      case (Put k st)
      with keyed have "k = key i" by blast
      moreover have "fst (for_rows body (Suc i) rest (m(key i \<mapsto> st), ns)) (key i) = (m(key i \<mapsto> st)) (key i)"
        by (rule for_rows_unwritten [OF later])
      ultimately show ?thesis using Put 0 by simp
    next
      case (Note n)
      with 0 for_rows_unwritten [OF later, of m "ns @ [n]"] show ?thesis by simp
    next
      case Pass
      with 0 for_rows_unwritten [OF later, of m ns] show ?thesis by simp
    qed
  next
    case (Suc j')
    with Cons.prems have j': "j' < length rest" by simp
    have ne: "key i \<noteq> key (Suc i + j')" using inj by (simp add: inj_eq)
    show ?thesis
    proof (cases "body i row")
      case (Put k st)
      with keyed have "k = key i" by blast
      moreover have "fst (for_rows body (Suc i) rest (m(key i \<mapsto> st), ns)) (key (Suc i + j')) =
           (case body (Suc i + j') (rest ! j') of Put k st' \<Rightarrow> Some st'
            | _ \<Rightarrow> (m(key i \<mapsto> st)) (key (Suc i + j')))"
        by (rule Cons.IH [OF j'])
      ultimately show ?thesis using Put Suc ne by (simp split: action.splits)
    next
      case (Note n)
      with Suc Cons.IH [OF j', of "Suc i" m "ns @ [n]"] show ?thesis
        by (simp split: action.splits)
    next
      case Pass
      with Suc Cons.IH [OF j', of "Suc i" m ns] show ?thesis
        by (simp split: action.splits)
    qed
  qed
qed

lemma for_rows_elsewhere:
  assumes keyed: "\<And>i row k st. body i row = Put k st \<Longrightarrow> k = key i"
      and k: "\<forall>j < length rs. k \<noteq> key (i + j)"
  shows "fst (for_rows body i rs (m, ns)) k = m k"
proof (rule for_rows_unwritten, intro allI impI notI)
  fix j st assume "j < length rs" and "body (i + j) (rs ! j) = Put k st"
  with keyed [of "i + j" "rs ! j" k st] k show False by blast
qed

lemma for_rows_notes:
  "snd (for_rows body i rs (m, ns)) =
     ns @ concat (map (\<lambda>(j, row). case body j row of Note n \<Rightarrow> [n] | _ \<Rightarrow> []) (enumerate i rs))"
proof (induction rs arbitrary: i m ns)
  case Nil
  show ?case by simp
next
  case (Cons row rest)
  show ?case
    by (cases "body i row") (simp_all add: Cons)
qed

lemma for_rows_no_notes:
  assumes "\<And>i row n. body i row \<noteq> Note n"
  shows "snd (for_rows body i rs (m, ns)) = ns"
proof -
  have "(\<lambda>(j, row). case body j row of Note n \<Rightarrow> [n] | _ \<Rightarrow> []) = (\<lambda>p. [])"
    using assms by (auto simp: fun_eq_iff split: action.splits)
  then show ?thesis by (simp add: for_rows_notes)
qed

lemma for_rows_0:
  "for_rows body 0 rs (m, []) = (m ++ writes_of body rs, notes_of body rs)"
  by (subst for_rows_overlay) (simp add: writes_of_def notes_of_def)

lemma writes_of_at:
  assumes "\<And>i row k st. body i row = Put k st \<Longrightarrow> k = key i" and "inj key" and "j < length rs"
  shows "(m ++ writes_of body rs) (key j) =
           (case body j (rs ! j) of Put k st \<Rightarrow> Some st | _ \<Rightarrow> m (key j))"
proof -
  have "fst (for_rows body 0 rs (m, [])) (key (0 + j)) =
          (case body (0 + j) (rs ! j) of Put k st \<Rightarrow> Some st | _ \<Rightarrow> m (key (0 + j)))"
    using assms by (rule for_rows_at)
  then show ?thesis by (simp add: for_rows_0 split: action.splits)
qed

lemma writes_of_elsewhere:
  assumes "\<And>i row k st. body i row = Put k st \<Longrightarrow> k = key i" and "\<forall>j < length rs. k \<noteq> key j"
  shows "(m ++ writes_of body rs) k = m k"
proof -
  have "fst (for_rows body 0 rs (m, [])) k = m k"
    using assms by (intro for_rows_elsewhere [where key = key]) auto
  then show ?thesis by (simp add: for_rows_0)
qed

lemma notes_of_eq:
  "notes_of body rs =
     concat (map (\<lambda>(j, row). case body j row of Note n \<Rightarrow> [n] | _ \<Rightarrow> []) (enumerate 0 rs))"
  by (simp add: notes_of_def for_rows_notes)

lemma notes_of_none:
  assumes "\<And>i row n. body i row \<noteq> Note n"
  shows "notes_of body rs = []"
  using for_rows_no_notes [of body 0 rs Map.empty "[]"] assms by (simp add: notes_of_def)

section \<open>Facts about single rules\<close>

lemma get_or_simps [simp]: "get_or d None = d" "get_or d (Some v) = v"
  by (simp_all add: get_or_def)

lemma add_warning_simps [simp]:
  "rows (add_warning w sm) = rows sm"
  "cells (add_warning w sm) = cells sm"
  "warnings (add_warning w sm) = warnings sm @ [w]"
  by (simp_all add: add_warning_def)

lemma empty_style_map_simps [simp]:
  "rows empty_style_map = Map.empty"
  "cells empty_style_map = Map.empty"
  "warnings empty_style_map = []"
  by (simp_all add: empty_style_map_def)

lemma inj_cell_key: "inj (\<lambda>i::nat. (i + 1, c::nat))"
  by (simp add: inj_def)

lemma inj_row_key: "inj (\<lambda>i::nat. i)"
  by (simp add: inj_def)

text \<open>The simple conditions of the cell scope.\<close>

lemma cell_scope_equals:
  assumes "c_type cond = Some ''equals''"
  shows "cell_scope env df tc cond st sm =
    Inr (sm\<lparr>cells := cells sm ++ writes_of
      (\<lambda>i row. if py_str env (row tc) = py_str env (get_or PNone (c_value cond))
                then Put (i + 1, get_loc (columns df) tc) st else (Pass :: (nat \<times> nat, unit) action))
      (records df)\<rparr>)"
  using assms by (simp add: cell_scope_def Let_def for_rows_0)


lemma cell_scope_numeric:
  assumes "c_type cond = Some ''numeric''"
  shows "cell_scope env df tc cond st sm =
    Inr (sm\<lparr>cells := cells sm ++ writes_of
      (\<lambda>i row.
         case py_float env (row tc) of
           Inl e \<Rightarrow> (Pass :: (nat \<times> nat, unit) action)
         | Inr num \<Rightarrow>
             (case numeric_match (get_or ''>'' (c_operator cond)) num (get_or (PInt 0) (c_value cond)) of
                Inl e \<Rightarrow> Pass
              | Inr matched \<Rightarrow> if matched then Put (i + 1, get_loc (columns df) tc) st else Pass))
      (records df)\<rparr>)"
  using assms by (simp add: cell_scope_def Let_def for_rows_0)

lemma row_scope_equals:
  assumes "c_type cond = Some ''equals''"
  shows "row_scope env df tc cond st sm =
    Inr (sm\<lparr>rows := rows sm ++ writes_of
      (\<lambda>i row. if py_strip (py_str env (row tc)) = py_str env (get_or (PStr []) (c_value cond))
                then Put i st else (Pass :: (nat, unit) action))
      (records df)\<rparr>)"
  using assms by (simp add: row_scope_def Let_def for_rows_0)


lemma apply_rule_row:
  assumes "r_scope rule = Some ''row''" and "r_target_column rule = Some tc"
      and "tc \<noteq> []" and "tc \<in> set (columns df)"
  shows "apply_rule env df rule sm = row_scope env df tc (r_condition rule) (r_style rule) sm"
  using assms by (simp add: apply_rule_def)

lemma apply_rule_cell:
  assumes "get_or ''cell'' (r_scope rule) = ''cell''" and "r_target_column rule = Some tc"
      and "tc \<noteq> []" and "tc \<in> set (columns df)"
  shows "apply_rule env df rule sm = cell_scope env df tc (r_condition rule) (r_style rule) sm"
  using assms by (simp add: apply_rule_def)

lemma apply_rule_skip:
  assumes "r_target_column rule = None \<or> r_target_column rule = Some []
             \<or> (\<exists>tc. r_target_column rule = Some tc \<and> tc \<notin> set (columns df))"
  shows "apply_rule env df rule sm = Inr sm"
  using assms by (auto simp: apply_rule_def Let_def split: option.splits)

section \<open>A rule lays its writes over the style map\<close>

lemma overlay_simps [simp]:
  "rows (overlay sm d) = rows sm ++ rows d"
  "cells (overlay sm d) = cells sm ++ cells d"
  "warnings (overlay sm d) = warnings sm @ warnings d"
  by (simp_all add: overlay_def)

lemma overlay_empty [simp]:
  "overlay sm empty_style_map = sm" "overlay empty_style_map d = d"
  by (simp_all add: overlay_def empty_style_map_def)

lemma overlay_assoc: "overlay (overlay a b) c = overlay a (overlay b c)"
  by (simp add: overlay_def)

lemma overlay_rows [simp]:
  "overlay sm (empty_style_map\<lparr>rows := W\<rparr>) = sm\<lparr>rows := rows sm ++ W\<rparr>"
  by (simp add: overlay_def empty_style_map_def)

lemma overlay_cells [simp]:
  "overlay sm (empty_style_map\<lparr>cells := W\<rparr>) = sm\<lparr>cells := cells sm ++ W\<rparr>"
  by (simp add: overlay_def empty_style_map_def)

lemma overlay_add_warning [simp]:
  "overlay sm (add_warning w d) = add_warning w (overlay sm d)"
  by (simp add: overlay_def add_warning_def)

lemma add_warning_update [simp]:
  "add_warning w (sm\<lparr>rows := R\<rparr>) = (add_warning w sm)\<lparr>rows := R\<rparr>"
  "add_warning w (sm\<lparr>cells := C\<rparr>) = (add_warning w sm)\<lparr>cells := C\<rparr>"
  by (simp_all add: add_warning_def)

lemma apply_gradient_overlay:
  "apply_gradient a b c cs ci vals m =
     (case gradient_writes a b c cs ci vals of Inl e \<Rightarrow> Inl e | Inr d \<Rightarrow> Inr (m ++ d))"
  unfolding gradient_writes_def
proof (induction vals arbitrary: m)
  case Nil
  show ?case by simp
next
  case (Cons p rest)
  obtain idx v where p: "p = (idx, v)" by (cases p)
  show ?case
  proof (cases "get_gradient_color v a b c cs")
    case (Inl e)
    with p show ?thesis by simp
  next
    case (Inr bg)
    define k where "k = (idx + 1, ci)"
    define s where "s = \<lparr>bg_color = Some bg, bold = None\<rparr>"
    define X where "X = apply_gradient a b c cs ci rest Map.empty"
    have 1: "apply_gradient a b c cs ci rest (m(k \<mapsto> s)) =
        (case X of Inl e \<Rightarrow> Inl e | Inr d \<Rightarrow> Inr (m(k \<mapsto> s) ++ d))"
      unfolding X_def by (rule Cons.IH)
    have 2: "apply_gradient a b c cs ci rest (Map.empty(k \<mapsto> s)) =
        (case X of Inl e \<Rightarrow> Inl e | Inr d \<Rightarrow> Inr (Map.empty(k \<mapsto> s) ++ d))"
      unfolding X_def by (rule Cons.IH)
    have 3: "m ++ (Map.empty(k \<mapsto> s) ++ d) = m(k \<mapsto> s) ++ d" for d
      by (simp add: map_add_assoc [symmetric])
    have l: "apply_gradient a b c cs ci (p # rest) m = apply_gradient a b c cs ci rest (m(k \<mapsto> s))"
      using Inr p by (simp add: k_def s_def)
    have r: "apply_gradient a b c cs ci (p # rest) Map.empty
               = apply_gradient a b c cs ci rest (Map.empty(k \<mapsto> s))"
      using Inr p by (simp add: k_def s_def)
    show ?thesis
      unfolding l r 1 2 by (cases X) (simp_all only: sum.case 3)
  qed
qed

lemma write_gradient_overlay:
  "write_gradient a b c cs ci vals sm =
     (case gradient_writes a b c cs ci vals of
        Inl e \<Rightarrow> Inl e
      | Inr d \<Rightarrow> Inr (sm\<lparr>cells := cells sm ++ d\<rparr>))"
  unfolding write_gradient_def
  by (subst apply_gradient_overlay) (simp split: sum.splits)

lemma date_compare_column_overlay:
  "date_compare_column env df tc cond st sm =
     (case date_compare_column env df tc cond st empty_style_map of
        Inl e \<Rightarrow> Inl e | Inr d \<Rightarrow> Inr (overlay sm d))"
  by (simp add: date_compare_column_def Let_def for_rows_0)

lemma color_scale_categorical_overlay:
  "color_scale_categorical env df tc ci cond sm =
     (case color_scale_categorical env df tc ci cond empty_style_map of
        Inl e \<Rightarrow> Inl e | Inr d \<Rightarrow> Inr (overlay sm d))"
  by (simp add: color_scale_categorical_def Let_def for_rows_0)

lemma color_scale_numeric_overlay:
  "color_scale_numeric env df tc ci cond sm =
     (case color_scale_numeric env df tc ci cond empty_style_map of
        Inl e \<Rightarrow> Inl e | Inr d \<Rightarrow> Inr (overlay sm d))"
  by (simp add: color_scale_numeric_def Let_def write_gradient_overlay bind_result_def
        split: sum.splits option.splits pyfloat.splits)

lemma color_scale_date_overlay:
  "color_scale_date env df tc ci cond sm =
     (case color_scale_date env df tc ci cond empty_style_map of
        Inl e \<Rightarrow> Inl e | Inr d \<Rightarrow> Inr (overlay sm d))"
  by (simp add: color_scale_date_def Let_def write_gradient_overlay
        split: sum.splits option.splits)

lemma row_scope_overlay:
  "row_scope env df tc cond st sm =
     (case row_scope env df tc cond st empty_style_map of
        Inl e \<Rightarrow> Inl e | Inr d \<Rightarrow> Inr (overlay sm d))"
  by (simp add: row_scope_def Let_def for_rows_0 bind_result_def
        split: sum.splits target.splits)

lemma cell_scope_overlay:
  "cell_scope env df tc cond st sm =
     (case cell_scope env df tc cond st empty_style_map of
        Inl e \<Rightarrow> Inl e | Inr d \<Rightarrow> Inr (overlay sm d))"
proof -
  note sub = date_compare_column_overlay [of env df tc cond st sm]
    color_scale_categorical_overlay [of env df tc _ cond sm]
    color_scale_numeric_overlay [of env df tc _ cond sm]
    color_scale_date_overlay [of env df tc _ cond sm]
  show ?thesis
    unfolding cell_scope_def Let_def
    by (simp add: for_rows_0 bind_result_def sub split: sum.splits target.splits)
qed

lemma apply_rule_overlay:
  "apply_rule env df rule sm =
     (case apply_rule env df rule empty_style_map of
        Inl e \<Rightarrow> Inl e | Inr d \<Rightarrow> Inr (overlay sm d))"
  using row_scope_overlay [of env df _ "r_condition rule" "r_style rule" sm]
    cell_scope_overlay [of env df _ "r_condition rule" "r_style rule" sm]
  by (simp add: apply_rule_def Let_def split: option.splits)

lemma apply_rules_overlay:
  "apply_rules env df rules sm =
     (case apply_rules env df rules empty_style_map of
        Inl e \<Rightarrow> Inl e | Inr d \<Rightarrow> Inr (overlay sm d))"
proof (induction rules arbitrary: sm)
  case Nil
  show ?case by simp
next
  case (Cons rule rest)
  show ?case
  proof (cases "apply_rule env df rule empty_style_map")
    case (Inl e)
    then show ?thesis using apply_rule_overlay [of env df rule sm] by simp
  next
    case (Inr d)
    then have "apply_rule env df rule sm = Inr (overlay sm d)"
      using apply_rule_overlay [of env df rule sm] by simp
    then show ?thesis
      using Inr Cons [of "overlay sm d"] Cons [of d]
      by (simp add: overlay_assoc split: sum.splits)
  qed
qed

lemma apply_rules_append:
  "apply_rules env df (rs1 @ rs2) sm =
     (case apply_rules env df rs1 sm of Inl e \<Rightarrow> Inl e | Inr sm1 \<Rightarrow> apply_rules env df rs2 sm1)"
  by (induction rs1 arbitrary: sm) (simp_all split: sum.splits)

section \<open>The keys that a rule writes\<close>

lemma writes_of_keys:
  assumes "\<And>i row k st. i < length rs \<Longrightarrow> body i row = Put k st \<Longrightarrow> P k"
      and "writes_of body rs k = Some s"
  shows "P k"
proof (rule ccontr)
  assume "\<not> P k"
  with assms(1) have "\<forall>j < length rs. \<forall>st. body (0 + j) (rs ! j) \<noteq> Put k st" by auto
  then have "fst (for_rows body 0 rs (Map.empty, [])) k = Map.empty k"
    by (rule for_rows_unwritten)
  with assms(2) show False by (simp add: writes_of_def)
qed


lemma scan_numeric_set:
  "set (scan_numeric env tc i rs acc) =
     set acc \<union> {(i + j, v) | j v. j < length rs \<and> py_float env ((rs ! j) tc) = Inr (Fin v)}"
proof (induction rs arbitrary: i acc)
  case Nil
  show ?case by simp
next
  case (Cons row rest)
  have shift: "{(i + j, v) | j v. j < length (row # rest) \<and> py_float env (((row # rest) ! j) tc) = Inr (Fin v)}
      = {(i, v) | v. py_float env (row tc) = Inr (Fin v)}
        \<union> {(Suc i + j, v) | j v. j < length rest \<and> py_float env ((rest ! j) tc) = Inr (Fin v)}"
    (is "?L = ?A \<union> ?B")
  proof (intro set_eqI iffI)
    fix p assume "p \<in> ?L"
    then obtain j v where p: "p = (i + j, v)" "j < length (row # rest)"
        "py_float env (((row # rest) ! j) tc) = Inr (Fin v)" by blast
    then show "p \<in> ?A \<union> ?B" by (cases j) auto
  next
    fix p assume "p \<in> ?A \<union> ?B"
    then show "p \<in> ?L"
    proof
      assume "p \<in> ?A"
      then obtain v where "p = (i + 0, v)" "py_float env (((row # rest) ! 0) tc) = Inr (Fin v)" by auto
      then show ?thesis by (intro CollectI exI [of _ 0] exI [of _ v]) simp
    next
      assume "p \<in> ?B"
      then obtain j v where "p = (i + Suc j, v)" "Suc j < length (row # rest)"
          "py_float env (((row # rest) ! Suc j) tc) = Inr (Fin v)" by auto
      then show ?thesis by blast
    qed
  qed
  show ?case
    unfolding shift
    by (cases "py_float env (row tc)") (auto simp: Cons split: pyfloat.splits)
qed

lemma scan_dates_index:
  "(idx, v) \<in> set (fst (scan_dates env tc i rs (dv, f))) \<Longrightarrow>
     (idx, v) \<in> set dv \<or> idx < i + length rs"
proof (induction rs arbitrary: i dv f)
  case Nil
  then show ?case by simp
next
  case (Cons row rest)
  then show ?case
    by (cases "to_datetime env (row tc)") (fastforce)+
qed

lemma gradient_writes_Cons:
  "gradient_writes a b c cs ci ((idx, v) # rest) =
     (case get_gradient_color v a b c cs of
        Inl e \<Rightarrow> Inl e
      | Inr bg \<Rightarrow>
          (case gradient_writes a b c cs ci rest of
             Inl e \<Rightarrow> Inl e
           | Inr d \<Rightarrow> Inr (Map.empty((idx + 1, ci) \<mapsto> \<lparr>bg_color = Some bg, bold = None\<rparr>) ++ d)))"
proof (cases "get_gradient_color v a b c cs")
  case (Inl e)
  then show ?thesis by (simp add: gradient_writes_def)
next
  case (Inr bg)
  have "apply_gradient a b c cs ci rest (Map.empty((idx + 1, ci) \<mapsto> \<lparr>bg_color = Some bg, bold = None\<rparr>))
      = (case gradient_writes a b c cs ci rest of
           Inl e \<Rightarrow> Inl e
         | Inr d \<Rightarrow> Inr (Map.empty((idx + 1, ci) \<mapsto> \<lparr>bg_color = Some bg, bold = None\<rparr>) ++ d))"
    by (rule apply_gradient_overlay)
  with Inr show ?thesis by (simp add: gradient_writes_def)
qed

lemma gradient_writes_Nil: "gradient_writes a b c cs ci [] = Inr Map.empty"
  by (simp add: gradient_writes_def)

lemma gradient_writes_entries:
  assumes "gradient_writes a b c cs ci vals = Inr d"
  shows "d k \<noteq> None \<longleftrightarrow> (\<exists>idx v. (idx, v) \<in> set vals \<and> k = (idx + 1, ci))"
    and "d k = Some s \<Longrightarrow> \<exists>bg. s = \<lparr>bg_color = Some bg, bold = None\<rparr>"
  using assms
proof (induction vals arbitrary: d)
  case Nil
  { case 1 then show ?case by (auto simp: gradient_writes_Nil) }
  { case 2 then show ?case by (auto simp: gradient_writes_Nil) }
next
  case (Cons p rest)
  obtain idx v where p: "p = (idx, v)" by (cases p)
  { case 1
    from 1 p obtain bg d' where bg: "get_gradient_color v a b c cs = Inr bg"
      and d': "gradient_writes a b c cs ci rest = Inr d'"
      and d: "d = Map.empty((idx + 1, ci) \<mapsto> \<lparr>bg_color = Some bg, bold = None\<rparr>) ++ d'"
      by (auto simp: gradient_writes_Cons split: sum.splits)
    from Cons.IH(1) [OF d'] show ?case
      unfolding d p by (auto simp: map_add_def split: option.splits) }
  { case 2
    from 2 p obtain bg d' where bg: "get_gradient_color v a b c cs = Inr bg"
      and d': "gradient_writes a b c cs ci rest = Inr d'"
      and d: "d = Map.empty((idx + 1, ci) \<mapsto> \<lparr>bg_color = Some bg, bold = None\<rparr>) ++ d'"
      by (auto simp: gradient_writes_Cons split: sum.splits)
    from 2 Cons.IH(2) [OF _ d'] show ?case
      unfolding d by (auto simp: map_add_def split: option.splits if_splits) }
qed


lemma writes_of_rowsE:
  assumes "writes_of body rs i = Some s"
      and "\<And>j row k st. j < length rs \<Longrightarrow> body j row = Put k st \<Longrightarrow> k < n"
  shows "i < n"
  using writes_of_keys [of rs body "\<lambda>k. k < n" i s] assms by blast

lemma writes_of_cellsE:
  assumes "writes_of body rs k = Some s"
      and "\<And>j row k' st. j < length rs \<Longrightarrow> body j row = Put k' st \<Longrightarrow> k' = (j + 1, ci)"
  shows "cell_key (length rs) ci k"
  using writes_of_keys [of rs body "\<lambda>k. cell_key (length rs) ci k" k s] assms
  unfolding cell_key_def by blast

lemma row_scope_keys:
  assumes "row_scope env df tc cond st empty_style_map = Inr d"
  shows "cells d = Map.empty" and "rows d i = Some s \<Longrightarrow> i < length (records df)"
proof -
  show "cells d = Map.empty"
    using assms
    by (auto simp: row_scope_def Let_def for_rows_0 bind_result_def
          split: if_splits sum.splits target.splits)
  show "i < length (records df)" if "rows d i = Some s"
    using assms that
    by (auto simp: row_scope_def Let_def for_rows_0 bind_result_def date_compare_body_def
          split: if_splits sum.splits target.splits dt_result.splits
          elim!: writes_of_rowsE)
qed


lemma write_gradient_rows:
  assumes "write_gradient a b c cs ci vals sm = Inr sm'"
  shows "rows sm' = rows sm" and "warnings sm' = warnings sm"
  using assms by (auto simp: write_gradient_overlay split: sum.splits)

lemma write_gradient_cells:
  assumes "write_gradient a b c cs ci vals sm = Inr sm'"
      and "cells sm' k = Some s"
      and "cells sm = Map.empty"
      and "\<forall>p \<in> set vals. fst p < n"
  shows "cell_key n ci k"
proof -
  from assms(1) obtain d where d: "gradient_writes a b c cs ci vals = Inr d"
    and sm': "sm' = sm\<lparr>cells := cells sm ++ d\<rparr>"
    by (auto simp: write_gradient_overlay split: sum.splits)
  from assms(2,3) have "d k \<noteq> None" by (simp add: sm')
  with gradient_writes_entries(1) [OF d, of k] assms(4) show ?thesis
    unfolding cell_key_def by fastforce
qed

lemma date_compare_column_keys:
  assumes "date_compare_column env df tc cond st empty_style_map = Inr d"
  shows "rows d = Map.empty"
    and "cells d k = Some s \<Longrightarrow> cell_key (length (records df)) (get_loc (columns df) tc) k"
proof -
  show "rows d = Map.empty"
    using assms by (auto simp: date_compare_column_def Let_def for_rows_0 split: if_splits)
  show "cell_key (length (records df)) (get_loc (columns df) tc) k" if "cells d k = Some s"
    using assms that
    by (auto simp: date_compare_column_def Let_def for_rows_0
          split: if_splits dt_result.splits elim!: writes_of_cellsE)
qed

lemma color_scale_categorical_keys:
  assumes "color_scale_categorical env df tc ci cond empty_style_map = Inr d"
  shows "rows d = Map.empty"
    and "cells d k = Some s \<Longrightarrow> cell_key (length (records df)) ci k"
proof -
  show "rows d = Map.empty"
    using assms by (auto simp: color_scale_categorical_def Let_def for_rows_0 split: if_splits)
  show "cell_key (length (records df)) ci k" if "cells d k = Some s"
    using assms that
    by (auto simp: color_scale_categorical_def Let_def for_rows_0
          split: if_splits option.splits elim!: writes_of_cellsE)
qed

lemma scan_numeric_index:
  "\<forall>p \<in> set (scan_numeric env tc 0 rs []). fst p < length rs"
  by (auto simp: scan_numeric_set)

lemma scan_dates_index0:
  "\<forall>p \<in> set (fst (scan_dates env tc 0 rs ([], 0))). fst p < length rs"
  using scan_dates_index [of _ _ env tc 0 rs "[]" 0] by auto

lemma color_scale_numeric_keys:
  assumes "color_scale_numeric env df tc ci cond empty_style_map = Inr d"
  shows "rows d = Map.empty"
    and "cells d k = Some s \<Longrightarrow> cell_key (length (records df)) ci k"
proof -
  show "rows d = Map.empty"
    using assms
    by (auto simp: color_scale_numeric_def Let_def bind_result_def
          split: if_splits sum.splits option.splits pyfloat.splits
          dest!: write_gradient_rows(1))
  show "cell_key (length (records df)) ci k" if "cells d k = Some s"
    using assms that
    by (auto simp: color_scale_numeric_def Let_def bind_result_def
          split: if_splits sum.splits option.splits pyfloat.splits
          dest!: write_gradient_cells [where k = k and s = s and n = "length (records df)",
                   OF _ _ _ scan_numeric_index])
qed

lemma color_scale_date_keys:
  assumes "color_scale_date env df tc ci cond empty_style_map = Inr d"
  shows "rows d = Map.empty"
    and "cells d k = Some s \<Longrightarrow> cell_key (length (records df)) ci k"
proof -
  show "rows d = Map.empty"
    using assms
    by (auto simp: color_scale_date_def Let_def split: if_splits option.splits
          dest!: write_gradient_rows(1))
  show "cell_key (length (records df)) ci k" if "cells d k = Some s"
    using assms that
    by (auto simp: color_scale_date_def Let_def split: if_splits option.splits
          dest!: write_gradient_cells [where k = k and s = s and n = "length (records df)",
                   OF _ _ _ scan_dates_index0])
qed

lemma cell_scope_keys:
  assumes "cell_scope env df tc cond st empty_style_map = Inr d"
  shows "rows d = Map.empty"
    and "cells d k = Some s \<Longrightarrow> cell_key (length (records df)) (get_loc (columns df) tc) k"
proof -
  show "rows d = Map.empty"
    using assms date_compare_column_keys(1) [of env df tc cond st d]
      color_scale_categorical_keys(1) [of env df tc _ cond d]
      color_scale_numeric_keys(1) [of env df tc _ cond d]
      color_scale_date_keys(1) [of env df tc _ cond d]
    by (auto simp: cell_scope_def Let_def for_rows_0 bind_result_def
          split: if_splits sum.splits target.splits)
  show "cell_key (length (records df)) (get_loc (columns df) tc) k" if "cells d k = Some s"
    using assms that date_compare_column_keys(2) [of env df tc cond st d k s]
      color_scale_categorical_keys(2) [of env df tc _ cond d k s]
      color_scale_numeric_keys(2) [of env df tc _ cond d k s]
      color_scale_date_keys(2) [of env df tc _ cond d k s]
    by (auto simp: cell_scope_def Let_def for_rows_0 bind_result_def date_compare_body_def
          split: if_splits sum.splits target.splits dt_result.splits
          elim!: writes_of_cellsE)
qed

section \<open>The skip policy\<close>

lemma date_compare_column_missing:
  assumes "c_compare_column cond = None \<or> c_compare_column cond = Some []
             \<or> (\<exists>cc. c_compare_column cond = Some cc \<and> cc \<notin> set (columns df))"
  shows "date_compare_column env df tc cond st sm =
     Inr (add_warning (''Compare column '' @ sq @ get_or ''None'' (c_compare_column cond) @ sq
            @ '' not found'') sm)"
  using assms by (auto simp: date_compare_column_def Let_def)

lemma cell_scope_date_compare_column:
  assumes "c_type cond = Some ''date_compare_column''"
  shows "cell_scope env df tc cond st sm = date_compare_column env df tc cond st sm"
  using assms by (simp add: cell_scope_def Let_def)

text \<open>
  Claim C8. A rule whose target column is absent from the columns of the dataset (or is
  not given) leaves the style map as it is, warnings included. A \<^verbatim>\<open>numeric\<close> rule
  adds no warning, and a cell that \<^verbatim>\<open>float\<close> cannot read keeps the entry it had. A
  \<^verbatim>\<open>date_compare_column\<close> rule whose compare column is absent writes no style and
  appends exactly one warning.
\<close>

theorem skip_policy:
  "(r_target_column rule = None \<or> r_target_column rule = Some []
      \<or> (\<exists>c. r_target_column rule = Some c \<and> c \<notin> set (columns df))
    \<longrightarrow> apply_rule env df rule sm = Inr sm
        \<and> evaluate_formatting_rules env df [rule] = Inr empty_style_map)
   \<and> (get_or ''cell'' (r_scope rule) = ''cell'' \<and> r_target_column rule = Some tc \<and> tc \<noteq> []
        \<and> tc \<in> set (columns df) \<and> c_type (r_condition rule) = Some ''numeric''
    \<longrightarrow> (\<exists>sm'. apply_rule env df rule sm = Inr sm' \<and> warnings sm' = warnings sm
           \<and> rows sm' = rows sm
           \<and> (\<forall>i < length (records df). (\<exists>e. py_float env ((records df ! i) tc) = Inl e) \<longrightarrow>
                 cells sm' (i + 1, get_loc (columns df) tc)
                   = cells sm (i + 1, get_loc (columns df) tc))))
   \<and> (get_or ''cell'' (r_scope rule) = ''cell'' \<and> r_target_column rule = Some tc \<and> tc \<noteq> []
        \<and> tc \<in> set (columns df) \<and> c_type (r_condition rule) = Some ''date_compare_column''
        \<and> (c_compare_column (r_condition rule) = None
             \<or> c_compare_column (r_condition rule) = Some []
             \<or> (\<exists>cc. c_compare_column (r_condition rule) = Some cc \<and> cc \<notin> set (columns df)))
    \<longrightarrow> apply_rule env df rule sm =
          Inr (sm\<lparr>warnings := warnings sm @
            [''Compare column '' @ sq @ get_or ''None'' (c_compare_column (r_condition rule)) @ sq
               @ '' not found'']\<rparr>))"
proof (intro conjI impI)
  assume a: "r_target_column rule = None \<or> r_target_column rule = Some []
      \<or> (\<exists>c. r_target_column rule = Some c \<and> c \<notin> set (columns df))"
  then show "apply_rule env df rule sm = Inr sm" by (rule apply_rule_skip)
  from a have "apply_rule env df rule empty_style_map = Inr empty_style_map"
    by (rule apply_rule_skip)
  then show "evaluate_formatting_rules env df [rule] = Inr empty_style_map"
    by (simp add: evaluate_formatting_rules_def)
next
  assume a: "get_or ''cell'' (r_scope rule) = ''cell'' \<and> r_target_column rule = Some tc \<and> tc \<noteq> []
        \<and> tc \<in> set (columns df) \<and> c_type (r_condition rule) = Some ''numeric''"
  define body where "body = (\<lambda>i row.
         case py_float env (row tc) of
           Inl e \<Rightarrow> (Pass :: (nat \<times> nat, unit) action)
         | Inr num \<Rightarrow>
             (case numeric_match (get_or ''>'' (c_operator (r_condition rule))) num
                     (get_or (PInt 0) (c_value (r_condition rule))) of
                Inl e \<Rightarrow> Pass
              | Inr matched \<Rightarrow>
                  if matched then Put (i + 1, get_loc (columns df) tc) (r_style rule) else Pass))"
  have keyed: "\<And>i row k st. body i row = Put k st \<Longrightarrow> k = (i + 1, get_loc (columns df) tc)"
    by (auto simp: body_def split: sum.splits if_splits)
  from a have res: "apply_rule env df rule sm =
      Inr (sm\<lparr>cells := cells sm ++ writes_of body (records df)\<rparr>)"
    by (simp add: apply_rule_cell cell_scope_numeric body_def)
  have "(cells sm ++ writes_of body (records df)) (i + 1, get_loc (columns df) tc)
          = cells sm (i + 1, get_loc (columns df) tc)"
    if "i < length (records df)" and "\<exists>e. py_float env ((records df ! i) tc) = Inl e" for i
    using writes_of_at [of body "\<lambda>i. (i + 1, get_loc (columns df) tc)" i "records df" "cells sm",
        OF keyed inj_cell_key that(1)] that(2)
    by (auto simp: body_def)
  with res show "\<exists>sm'. apply_rule env df rule sm = Inr sm' \<and> warnings sm' = warnings sm
           \<and> rows sm' = rows sm
           \<and> (\<forall>i < length (records df). (\<exists>e. py_float env ((records df ! i) tc) = Inl e) \<longrightarrow>
                 cells sm' (i + 1, get_loc (columns df) tc)
                   = cells sm (i + 1, get_loc (columns df) tc))"
    by simp
next
  assume "get_or ''cell'' (r_scope rule) = ''cell'' \<and> r_target_column rule = Some tc \<and> tc \<noteq> []
        \<and> tc \<in> set (columns df) \<and> c_type (r_condition rule) = Some ''date_compare_column''
        \<and> (c_compare_column (r_condition rule) = None
             \<or> c_compare_column (r_condition rule) = Some []
             \<or> (\<exists>cc. c_compare_column (r_condition rule) = Some cc \<and> cc \<notin> set (columns df)))"
  then show "apply_rule env df rule sm =
          Inr (sm\<lparr>warnings := warnings sm @
            [''Compare column '' @ sq @ get_or ''None'' (c_compare_column (r_condition rule)) @ sq
               @ '' not found'']\<rparr>)"
    by (simp add: apply_rule_cell cell_scope_date_compare_column date_compare_column_missing
          add_warning_def)
qed

text \<open>The three cases on a dataset with the columns \<^verbatim>\<open>Item\<close> and \<^verbatim>\<open>Score\<close>, whose
  second score is the str \<^verbatim>\<open>n/a\<close>.\<close>

theorem skip_policy_witness:
  "apply_rule example_env orders missing_column_rule empty_style_map = Inr empty_style_map
   \<and> (\<exists>sm'. apply_rule example_env orders numeric_rule empty_style_map = Inr sm'
         \<and> warnings sm' = [] \<and> cells sm' (2, 1) = None)
   \<and> apply_rule example_env orders compare_rule empty_style_map =
       Inr (empty_style_map\<lparr>warnings := [''Compare column '' @ sq @ ''Start'' @ sq @ '' not found'']\<rparr>)"
proof -
  have 1: "apply_rule example_env orders missing_column_rule empty_style_map = Inr empty_style_map"
    using skip_policy [where rule = missing_column_rule and df = orders and env = example_env
        and sm = empty_style_map]
    by (simp add: missing_column_rule_def orders_def)
  have 2: "\<exists>sm'. apply_rule example_env orders numeric_rule empty_style_map = Inr sm'
         \<and> warnings sm' = [] \<and> cells sm' (2, 1) = None"
  proof -
    from skip_policy [where rule = numeric_rule and df = orders and env = example_env
        and sm = empty_style_map and tc = "''Score''"]
    obtain sm' where sm': "apply_rule example_env orders numeric_rule empty_style_map = Inr sm'"
        "warnings sm' = []"
        "\<forall>i < length (records orders).
           (\<exists>e. py_float example_env ((records orders ! i) ''Score'') = Inl e) \<longrightarrow>
           cells sm' (i + 1, get_loc (columns orders) ''Score'') = None"
      by (auto simp: numeric_rule_def orders_def no_condition_def)
    from sm'(3) [rule_format, of 1] have "cells sm' (2, 1) = None"
      by (simp add: orders_def example_env_def get_loc_def numeral_2_eq_2)
    with sm'(1,2) show ?thesis by blast
  qed
  have 3: "apply_rule example_env orders compare_rule empty_style_map =
       Inr (empty_style_map\<lparr>warnings := [''Compare column '' @ sq @ ''Start'' @ sq @ '' not found'']\<rparr>)"
    using skip_policy [where rule = compare_rule and df = orders and env = example_env
        and sm = empty_style_map and tc = "''Score''"]
    by (simp add: compare_rule_def orders_def no_condition_def)
  from 1 2 3 show ?thesis by blast
qed

section \<open>Equality with and without trimming\<close>

text \<open>
  Claim C7. For a rule with an \<^verbatim>\<open>equals\<close> condition on the value \<open>v\<close>: in the row
  scope the row at position \<open>i\<close> gets the style exactly when the string form of its cell,
  trimmed of whitespace, is the string form of \<open>v\<close>; in the cell scope the cell gets
  the style (under the key \<open>(i + 1, column)\<close>) exactly when the untrimmed string form is
  the string form of \<open>v\<close>. A cell that equals \<open>v\<close> only after trimming is matched by
  the row rule and not by the cell rule.
\<close>

theorem equals_trim_asymmetry:
  assumes "tc \<noteq> []" and "tc \<in> set (columns df)"
      and "c_type cond = Some ''equals''" and "c_value cond = Some v"
      and "r_scope row_rule = Some ''row''" and "r_target_column row_rule = Some tc"
      and "r_condition row_rule = cond"
      and "get_or ''cell'' (r_scope cell_rule) = ''cell''" and "r_target_column cell_rule = Some tc"
      and "r_condition cell_rule = cond"
  shows "\<exists>sm_r sm_c.
      apply_rule env df row_rule sm = Inr sm_r \<and> apply_rule env df cell_rule sm = Inr sm_c
    \<and> (\<forall>i < length (records df).
          rows sm_r i =
            (if py_strip (py_str env ((records df ! i) tc)) = py_str env v
             then Some (r_style row_rule) else rows sm i))
    \<and> (\<forall>i < length (records df).
          cells sm_c (i + 1, get_loc (columns df) tc) =
            (if py_str env ((records df ! i) tc) = py_str env v
             then Some (r_style cell_rule) else cells sm (i + 1, get_loc (columns df) tc)))
    \<and> (\<forall>i < length (records df).
          py_strip (py_str env ((records df ! i) tc)) = py_str env v
          \<and> py_str env ((records df ! i) tc) \<noteq> py_str env v \<longrightarrow>
            rows sm_r i = Some (r_style row_rule)
            \<and> cells sm_c (i + 1, get_loc (columns df) tc) = cells sm (i + 1, get_loc (columns df) tc))"
proof -
  define rbody where "rbody = (\<lambda>(i::nat) row.
     if py_strip (py_str env (row tc)) = py_str env (get_or (PStr []) (c_value cond))
     then Put i (r_style row_rule) else (Pass :: (nat, unit) action))"
  define cbody where "cbody = (\<lambda>(i::nat) row.
     if py_str env (row tc) = py_str env (get_or PNone (c_value cond))
     then Put (i + 1, get_loc (columns df) tc) (r_style cell_rule)
     else (Pass :: (nat \<times> nat, unit) action))"
  have rkeyed: "\<And>i row k st. rbody i row = Put k st \<Longrightarrow> k = i"
    by (auto simp: rbody_def split: if_splits)
  have ckeyed: "\<And>i row k st. cbody i row = Put k st \<Longrightarrow> k = (i + 1, get_loc (columns df) tc)"
    by (auto simp: cbody_def split: if_splits)
  have r: "apply_rule env df row_rule sm = Inr (sm\<lparr>rows := rows sm ++ writes_of rbody (records df)\<rparr>)"
    using assms by (simp add: apply_rule_row row_scope_equals rbody_def)
  have c: "apply_rule env df cell_rule sm = Inr (sm\<lparr>cells := cells sm ++ writes_of cbody (records df)\<rparr>)"
    using assms by (simp add: apply_rule_cell cell_scope_equals cbody_def)
  have rows_at: "(rows sm ++ writes_of rbody (records df)) i =
      (if py_strip (py_str env ((records df ! i) tc)) = py_str env v
       then Some (r_style row_rule) else rows sm i)" if "i < length (records df)" for i
    using writes_of_at [of rbody "\<lambda>i. i" i "records df" "rows sm", OF rkeyed inj_row_key that] assms(4)
    by (simp add: rbody_def)
  have cells_at: "(cells sm ++ writes_of cbody (records df)) (i + 1, get_loc (columns df) tc) =
      (if py_str env ((records df ! i) tc) = py_str env v
       then Some (r_style cell_rule) else cells sm (i + 1, get_loc (columns df) tc))"
    if "i < length (records df)" for i
    using writes_of_at [of cbody "\<lambda>i. (i + 1, get_loc (columns df) tc)" i "records df" "cells sm",
        OF ckeyed inj_cell_key that] assms(4)
    by (simp add: cbody_def)
  show ?thesis
    unfolding r c using rows_at cells_at by simp
qed

text \<open>Three regions, \<^verbatim>\<open>North\<close>, \<^verbatim>\<open>North\<close> between blanks, and \<^verbatim>\<open>South\<close>: the row
  rule styles the first two rows, the cell rule the first cell only.\<close>

theorem equals_trim_asymmetry_witness:
  "\<exists>sm_r sm_c.
      apply_rule example_env regions north_row_rule empty_style_map = Inr sm_r
    \<and> apply_rule example_env regions north_cell_rule empty_style_map = Inr sm_c
    \<and> rows sm_r 0 = Some shade \<and> rows sm_r 1 = Some shade \<and> rows sm_r 2 = None
    \<and> cells sm_c (1, 0) = Some highlight \<and> cells sm_c (2, 0) = None \<and> cells sm_c (3, 0) = None"
proof -
  have strip: "py_strip '' North '' = ''North''" "py_strip ''North'' = ''North''"
     "py_strip ''South'' = ''South''"
    by code_simp+
  from equals_trim_asymmetry [where tc = "''Category''" and df = regions
      and cond = "r_condition north_row_rule" and v = "PStr ''North''" and row_rule = north_row_rule
      and cell_rule = north_cell_rule and env = example_env and sm = empty_style_map]
  obtain sm_r sm_c where h:
      "apply_rule example_env regions north_row_rule empty_style_map = Inr sm_r"
      "apply_rule example_env regions north_cell_rule empty_style_map = Inr sm_c"
      "\<forall>i < length (records regions).
          rows sm_r i =
            (if py_strip (py_str example_env ((records regions ! i) ''Category'')) = ''North''
             then Some shade else None)"
      "\<forall>i < length (records regions).
          cells sm_c (i + 1, get_loc (columns regions) ''Category'') =
            (if py_str example_env ((records regions ! i) ''Category'') = ''North''
             then Some highlight else None)"
    by (auto simp: regions_def north_row_rule_def north_cell_rule_def no_condition_def)
  have "rows sm_r 0 = Some shade" "rows sm_r 1 = Some shade" "rows sm_r 2 = None"
    using h(3) [rule_format, of 0] h(3) [rule_format, of 1] h(3) [rule_format, of 2]
    by (simp_all add: regions_def strip)
  moreover have "cells sm_c (1, 0) = Some highlight" "cells sm_c (2, 0) = None" "cells sm_c (3, 0) = None"
    using h(4) [rule_format, of 0] h(4) [rule_format, of 1] h(4) [rule_format, of 2]
    by (simp_all add: regions_def get_loc_def numeral_2_eq_2 numeral_3_eq_3)
  ultimately show ?thesis using h(1,2) by blast
qed

section \<open>Exceptions that escape the evaluator\<close>

text \<open>
  Claim C1 fails on the code. With the scores 1, 4 and 7, a manual numeric colour scale
  whose \<^verbatim>\<open>min\<close> is the str \<^verbatim>\<open>low\<close> raises TypeError from
  \<^verbatim>\<open>min_val < mid_val\<close>, and an automatic one with the stops \<^verbatim>\<open>red\<close>,
  \<^verbatim>\<open>yellow\<close>, \<^verbatim>\<open>green\<close> raises ValueError from \<^verbatim>\<open>hex_to_rgb\<close> at the score 4.
\<close>

theorem evaluator_raises:
  "evaluate_formatting_rules env scores [bad_bounds_rule] = Inl TypeError
   \<and> evaluate_formatting_rules env scores [named_colors_rule] = Inl ValueError"
proof -
  have 1: "evaluate_formatting_rules env scores [bad_bounds_rule] = Inl TypeError"
    by (simp add: evaluate_formatting_rules_def apply_rule_def scores_def bad_bounds_rule_def
          no_condition_def cell_scope_def color_scale_numeric_def default_colors_def is_none_def
          py_lt_def)
  have scan: "scan_numeric env ''Score'' 0 (records scores) [] = [(0, 1), (1, 4), (2, 7)]"
    by (simp add: scores_def)
  have g: "get_gradient_color 1 1 4 7 [''red'', ''yellow'', ''green''] = Inr ''red''"
       "get_gradient_color 4 1 4 7 [''red'', ''yellow'', ''green''] = Inl ValueError"
    by code_simp+
  have 2: "evaluate_formatting_rules env scores [named_colors_rule] = Inl ValueError"
    by (simp add: evaluate_formatting_rules_def apply_rule_def named_colors_rule_def
          no_condition_def cell_scope_def color_scale_numeric_def scan py_min_def py_max_def
          write_gradient_def g)
       (simp add: scores_def)
  from 1 2 show ?thesis by simp
qed

section \<open>The categorical colour scale\<close>

lemma cell_scope_categorical:
  assumes "c_type cond = Some ''color_scale''" and "c_scale_type cond = Some ''categorical''"
  shows "cell_scope env df tc cond st sm =
     color_scale_categorical env df tc (get_loc (columns df) tc) cond sm"
  using assms by (simp add: cell_scope_def Let_def)

lemma categorical_notes:
  "notes_of (\<lambda>i row.
       case map_of cm (py_str env (row tc)) of
         Some bg \<Rightarrow> Put (i + 1, ci) \<lparr>bg_color = Some bg, bold = None\<rparr>
       | None \<Rightarrow> Note (py_str env (row tc))) rs
   = filter (\<lambda>s. map_of cm s = None) (map (\<lambda>row. py_str env (row tc)) rs)"
proof -
  have "concat (map (\<lambda>(j, row).
          case (case map_of cm (py_str env (row tc)) of
                  Some bg \<Rightarrow> Put (j + 1, ci) \<lparr>bg_color = Some bg, bold = None\<rparr>
                | None \<Rightarrow> Note (py_str env (row tc))) of Note n \<Rightarrow> [n] | _ \<Rightarrow> [])
          (enumerate i rs))
     = filter (\<lambda>s. map_of cm s = None) (map (\<lambda>row. py_str env (row tc)) rs)" for i
    by (induction rs arbitrary: i) (auto split: option.splits)
  then show ?thesis by (simp add: notes_of_eq)
qed

text \<open>
  Claim C9. A categorical colour scale with a \<^verbatim>\<open>color_map\<close> that is not empty gives the
  cell of each row whose string form is a key of the map the entry
  \<^verbatim>\<open>{'bg_color': mapped}\<close> under \<open>(row + 1, column)\<close>, and leaves every other entry
  as it was. With \<open>us\<close> the distinct unmapped string forms, no warning is added when
  \<open>us\<close> is empty; otherwise exactly one warning is appended, which gives their number,
  names the first three of them in the iteration order of the set (at most three), and
  has the ellipsis exactly when there are more than three. A \<^verbatim>\<open>color_map\<close> that is
  empty or absent writes nothing and appends one warning.
\<close>

theorem categorical_scale:
  assumes "get_or ''cell'' (r_scope rule) = ''cell''" and "r_target_column rule = Some tc"
      and "tc \<noteq> []" and "tc \<in> set (columns df)"
      and "c_type (r_condition rule) = Some ''color_scale''"
      and "c_scale_type (r_condition rule) = Some ''categorical''"
      and "us = remdups (filter (\<lambda>s. map_of cm s = None)
                            (map (\<lambda>row. py_str env (row tc)) (records df)))"
  shows "(c_color_map (r_condition rule) = None \<or> c_color_map (r_condition rule) = Some [] \<longrightarrow>
            apply_rule env df rule sm =
              Inr (sm\<lparr>warnings := warnings sm @
                     [''color_scale categorical missing '' @ sq @ ''color_map'' @ sq]\<rparr>))
    \<and> (c_color_map (r_condition rule) = Some cm \<and> cm \<noteq> [] \<longrightarrow>
         (\<exists>sm'. apply_rule env df rule sm = Inr sm' \<and> rows sm' = rows sm
            \<and> (\<forall>i < length (records df).
                  cells sm' (i + 1, get_loc (columns df) tc) =
                    (case map_of cm (py_str env ((records df ! i) tc)) of
                       Some bg \<Rightarrow> Some \<lparr>bg_color = Some bg, bold = None\<rparr>
                     | None \<Rightarrow> cells sm (i + 1, get_loc (columns df) tc)))
            \<and> (\<forall>k. (\<forall>i < length (records df). k \<noteq> (i + 1, get_loc (columns df) tc)) \<longrightarrow>
                  cells sm' k = cells sm k)
            \<and> distinct us
            \<and> set us = {s. \<exists>i < length (records df).
                            s = py_str env ((records df ! i) tc) \<and> map_of cm s = None}
            \<and> length (take 3 (set_order env us)) \<le> 3
            \<and> warnings sm' = warnings sm @
                 (if us = [] then []
                  else [sq @ tc @ sq @ '' categorical color scale: '' @ str_int (int (length us))
                          @ '' unmapped values ('' @ join '', '' (take 3 (set_order env us))
                          @ (if length us > 3 then ''...'' else []) @ '')''])))"
proof (intro conjI impI)
  assume "c_color_map (r_condition rule) = None \<or> c_color_map (r_condition rule) = Some []"
  with assms show "apply_rule env df rule sm =
      Inr (sm\<lparr>warnings := warnings sm @
             [''color_scale categorical missing '' @ sq @ ''color_map'' @ sq]\<rparr>)"
    by (auto simp: apply_rule_cell cell_scope_categorical color_scale_categorical_def
          add_warning_def)
next
  assume cm: "c_color_map (r_condition rule) = Some cm \<and> cm \<noteq> []"
  define ci where "ci = get_loc (columns df) tc"
  define body where "body = (\<lambda>(i::nat) row.
       case map_of cm (py_str env (row tc)) of
         None \<Rightarrow> (Note (py_str env (row tc)) :: (nat \<times> nat, string) action)
       | Some bg \<Rightarrow> Put (i + 1, ci) \<lparr>bg_color = Some bg, bold = None\<rparr>)"
  have keyed: "\<And>i row k st. body i row = Put k st \<Longrightarrow> k = (i + 1, ci)"
    by (auto simp: body_def Let_def split: option.splits)
  have notes_us: "remdups (notes_of body (records df)) = us"
    unfolding body_def categorical_notes assms(7) ..
  define sm' where "sm' = (let sm1 = sm\<lparr>cells := cells sm ++ writes_of body (records df)\<rparr> in
      if us \<noteq> [] then add_warning (categorical_warning env tc us) sm1 else sm1)"
  have res: "apply_rule env df rule sm = Inr sm'"
    using assms(1-6) cm notes_us
    by (auto simp: apply_rule_cell cell_scope_categorical color_scale_categorical_def Let_def
          for_rows_0 body_def [symmetric] ci_def [symmetric] sm'_def)
  have cells': "cells sm' = cells sm ++ writes_of body (records df)"
    and rows': "rows sm' = rows sm"
    by (simp_all add: sm'_def Let_def)
  have at: "cells sm' (i + 1, ci) =
      (case map_of cm (py_str env ((records df ! i) tc)) of
         Some bg \<Rightarrow> Some \<lparr>bg_color = Some bg, bold = None\<rparr>
       | None \<Rightarrow> cells sm (i + 1, ci))" if "i < length (records df)" for i
    unfolding cells'
    using writes_of_at [of body "\<lambda>i. (i + 1, ci)" i "records df" "cells sm",
        OF keyed inj_cell_key that]
    by (simp add: body_def Let_def split: option.splits)
  have elsewhere: "cells sm' k = cells sm k" if "\<forall>i < length (records df). k \<noteq> (i + 1, ci)" for k
    unfolding cells'
    using writes_of_elsewhere [of body "\<lambda>i. (i + 1, ci)" "records df" k "cells sm", OF keyed] that
    by simp
  have set_us: "set us = {s. \<exists>i < length (records df).
                            s = py_str env ((records df ! i) tc) \<and> map_of cm s = None}"
    unfolding assms(7) by (auto simp: in_set_conv_nth image_iff) (metis nth_mem)
  have warn: "warnings sm' = warnings sm @
                 (if us = [] then []
                  else [sq @ tc @ sq @ '' categorical color scale: '' @ str_int (int (length us))
                          @ '' unmapped values ('' @ join '', '' (take 3 (set_order env us))
                          @ (if length us > 3 then ''...'' else []) @ '')''])"
    by (simp add: sm'_def Let_def categorical_warning_def)
  show "\<exists>sm'. apply_rule env df rule sm = Inr sm' \<and> rows sm' = rows sm
            \<and> (\<forall>i < length (records df).
                  cells sm' (i + 1, get_loc (columns df) tc) =
                    (case map_of cm (py_str env ((records df ! i) tc)) of
                       Some bg \<Rightarrow> Some \<lparr>bg_color = Some bg, bold = None\<rparr>
                     | None \<Rightarrow> cells sm (i + 1, get_loc (columns df) tc)))
            \<and> (\<forall>k. (\<forall>i < length (records df). k \<noteq> (i + 1, get_loc (columns df) tc)) \<longrightarrow>
                  cells sm' k = cells sm k)
            \<and> distinct us
            \<and> set us = {s. \<exists>i < length (records df).
                            s = py_str env ((records df ! i) tc) \<and> map_of cm s = None}
            \<and> length (take 3 (set_order env us)) \<le> 3
            \<and> warnings sm' = warnings sm @
                 (if us = [] then []
                  else [sq @ tc @ sq @ '' categorical color scale: '' @ str_int (int (length us))
                          @ '' unmapped values ('' @ join '', '' (take 3 (set_order env us))
                          @ (if length us > 3 then ''...'' else []) @ '')''])"
    using res rows' at elsewhere set_us warn assms(7)
    unfolding ci_def by (intro exI [of _ sm']) simp
qed

text \<open>The statuses \<^verbatim>\<open>Active\<close> and \<^verbatim>\<open>Unknown\<close> with the map
  \<^verbatim>\<open>{"Active": "#111111"}\<close>.\<close>

theorem categorical_scale_witness:
  "\<exists>sm'. apply_rule example_env statuses status_rule empty_style_map = Inr sm'
     \<and> cells sm' (1, 0) = Some \<lparr>bg_color = Some ''#111111'', bold = None\<rparr>
     \<and> cells sm' (2, 0) = None
     \<and> warnings sm' =
         [sq @ ''Status'' @ sq @ '' categorical color scale: 1 unmapped values (Unknown)'']"
proof -
  have one: "str_int 1 = ''1''" by code_simp
  have us: "[''Unknown''] = remdups (filter (\<lambda>s. map_of [(''Active'', ''#111111'')] s = None)
              (map (\<lambda>row. py_str example_env (row ''Status'')) (records statuses)))"
    by (simp add: statuses_def)
  from categorical_scale [where rule = status_rule and tc = "''Status''" and df = statuses
      and env = example_env and sm = empty_style_map and cm = "[(''Active'', ''#111111'')]"
      and us = "[''Unknown'']", OF _ _ _ _ _ _ us]
  obtain sm' where h:
      "apply_rule example_env statuses status_rule empty_style_map = Inr sm'"
      "\<forall>i < length (records statuses).
         cells sm' (i + 1, get_loc (columns statuses) ''Status'') =
           (case map_of [(''Active'', ''#111111'')] (py_str example_env ((records statuses ! i) ''Status'')) of
              Some bg \<Rightarrow> Some \<lparr>bg_color = Some bg, bold = None\<rparr>
            | None \<Rightarrow> None)"
      "warnings sm' =
         [sq @ ''Status'' @ sq @ '' categorical color scale: '' @ str_int (int (length [''Unknown'']))
            @ '' unmapped values ('' @ join '', '' (take 3 (set_order example_env [''Unknown'']))
            @ (if length [''Unknown''] > 3 then ''...'' else []) @ '')'']"
    by (auto simp: status_rule_def statuses_def no_condition_def)
  have "cells sm' (1, 0) = Some \<lparr>bg_color = Some ''#111111'', bold = None\<rparr>" "cells sm' (2, 0) = None"
    using h(2) [rule_format, of 0] h(2) [rule_format, of 1]
    by (simp_all add: statuses_def get_loc_def numeral_2_eq_2)
  moreover have "warnings sm' =
         [sq @ ''Status'' @ sq @ '' categorical color scale: 1 unmapped values (Unknown)'']"
    using h(3) by (simp add: example_env_def one)
  ultimately show ?thesis using h(1) by blast
qed

section \<open>The target of a date comparison\<close>



lemma py_str_local_utc_offset [simp]:
  "py_str (env\<lparr>local_utc_offset := z\<rparr>) v = py_str env v"
  by (cases "(env, v)" rule: py_str.cases) simp_all



section \<open>Rules in list order\<close>

lemma evaluate_formatting_rules_eq:
  "evaluate_formatting_rules env df rules = apply_rules env df rules empty_style_map"
  by (simp add: evaluate_formatting_rules_def)

lemma evaluate_append:
  "evaluate_formatting_rules env df (rs1 @ rs2) =
     (case evaluate_formatting_rules env df rs1 of
        Inl e \<Rightarrow> Inl e
      | Inr sm1 \<Rightarrow>
          (case evaluate_formatting_rules env df rs2 of
             Inl e \<Rightarrow> Inl e
           | Inr sm2 \<Rightarrow> Inr (overlay sm1 sm2)))"
proof (cases "apply_rules env df rs1 empty_style_map")
  case (Inl e)
  then show ?thesis by (simp add: evaluate_formatting_rules_eq apply_rules_append)
next
  case (Inr sm1)
  then show ?thesis
    using apply_rules_overlay [of env df rs2 sm1]
    by (simp add: evaluate_formatting_rules_eq apply_rules_append)
qed

text \<open>
  Claim C3. The rules are applied in list order: evaluating a list is evaluating its first
  part and laying the result of its second part over it, and it raises only where one
  of the parts raises. So for two rules that each evaluate, the pair evaluates, and at
  every key that the later rule writes, in the rows or in the cells, the entry is
  exactly the entry of the later rule, whatever the earlier rule wrote there; at the
  other keys the entry of the earlier rule stays.
\<close>

theorem last_write_wins:
  "evaluate_formatting_rules env df (rs1 @ rs2) =
     (case evaluate_formatting_rules env df rs1 of
        Inl e \<Rightarrow> Inl e
      | Inr sm1 \<Rightarrow>
          (case evaluate_formatting_rules env df rs2 of
             Inl e \<Rightarrow> Inl e
           | Inr sm2 \<Rightarrow> Inr (overlay sm1 sm2)))
   \<and> (evaluate_formatting_rules env df [r1] = Inr sm1
        \<and> evaluate_formatting_rules env df [r2] = Inr sm2 \<longrightarrow>
        (\<exists>sm. evaluate_formatting_rules env df [r1, r2] = Inr sm
           \<and> (\<forall>k s. cells sm2 k = Some s \<longrightarrow> cells sm k = Some s)
           \<and> (\<forall>i s. rows sm2 i = Some s \<longrightarrow> rows sm i = Some s)
           \<and> (\<forall>k. cells sm2 k = None \<longrightarrow> cells sm k = cells sm1 k)
           \<and> (\<forall>i. rows sm2 i = None \<longrightarrow> rows sm i = rows sm1 i)
           \<and> warnings sm = warnings sm1 @ warnings sm2))"
proof (intro conjI impI)
  show "evaluate_formatting_rules env df (rs1 @ rs2) =
     (case evaluate_formatting_rules env df rs1 of
        Inl e \<Rightarrow> Inl e
      | Inr sm1 \<Rightarrow>
          (case evaluate_formatting_rules env df rs2 of
             Inl e \<Rightarrow> Inl e
           | Inr sm2 \<Rightarrow> Inr (overlay sm1 sm2)))"
    by (rule evaluate_append)
next
  assume a: "evaluate_formatting_rules env df [r1] = Inr sm1
        \<and> evaluate_formatting_rules env df [r2] = Inr sm2"
  have "evaluate_formatting_rules env df ([r1] @ [r2]) = Inr (overlay sm1 sm2)"
    using a by (simp only: evaluate_append sum.case)
  then have e: "evaluate_formatting_rules env df [r1, r2] = Inr (overlay sm1 sm2)" by simp
  show "\<exists>sm. evaluate_formatting_rules env df [r1, r2] = Inr sm
           \<and> (\<forall>k s. cells sm2 k = Some s \<longrightarrow> cells sm k = Some s)
           \<and> (\<forall>i s. rows sm2 i = Some s \<longrightarrow> rows sm i = Some s)
           \<and> (\<forall>k. cells sm2 k = None \<longrightarrow> cells sm k = cells sm1 k)
           \<and> (\<forall>i. rows sm2 i = None \<longrightarrow> rows sm i = rows sm1 i)
           \<and> warnings sm = warnings sm1 @ warnings sm2"
    unfolding e by (intro exI [of _ "overlay sm1 sm2"]) (simp add: map_add_def)
qed

text \<open>Two cell rules that match the first region with different styles: the entry is
  the style of the later one.\<close>

theorem last_write_wins_witness:
  "\<exists>sm. evaluate_formatting_rules example_env regions [north_cell_rule, north_cell_shade_rule] = Inr sm
     \<and> cells sm (1, 0) = Some shade \<and> cells sm (2, 0) = None \<and> warnings sm = []"
proof -
  have 1: "\<exists>sm1. evaluate_formatting_rules example_env regions [north_cell_rule] = Inr sm1
      \<and> cells sm1 (1, 0) = Some highlight \<and> cells sm1 (2, 0) = None \<and> warnings sm1 = []"
    by (simp add: evaluate_formatting_rules_def apply_rule_def cell_scope_def regions_def
          north_cell_rule_def no_condition_def get_loc_def)
  have 2: "\<exists>sm2. evaluate_formatting_rules example_env regions [north_cell_shade_rule] = Inr sm2
      \<and> cells sm2 (1, 0) = Some shade \<and> cells sm2 (2, 0) = None \<and> warnings sm2 = []"
    by (simp add: evaluate_formatting_rules_def apply_rule_def cell_scope_def regions_def
          north_cell_shade_rule_def no_condition_def get_loc_def)
  from 1 obtain sm1 where sm1: "evaluate_formatting_rules example_env regions [north_cell_rule] = Inr sm1"
    "cells sm1 (1, 0) = Some highlight" "cells sm1 (2, 0) = None" "warnings sm1 = []" by blast
  from 2 obtain sm2 where sm2: "evaluate_formatting_rules example_env regions [north_cell_shade_rule] = Inr sm2"
    "cells sm2 (1, 0) = Some shade" "cells sm2 (2, 0) = None" "warnings sm2 = []" by blast
  from last_write_wins [where env = example_env and df = regions and ?r1.0 = north_cell_rule
      and ?r2.0 = north_cell_shade_rule and ?sm1.0 = sm1 and ?sm2.0 = sm2] sm1(1) sm2(1)
  obtain sm where sm: "evaluate_formatting_rules example_env regions [north_cell_rule, north_cell_shade_rule] = Inr sm"
    "\<forall>k s. cells sm2 k = Some s \<longrightarrow> cells sm k = Some s"
    "\<forall>k. cells sm2 k = None \<longrightarrow> cells sm k = cells sm1 k"
    "warnings sm = warnings sm1 @ warnings sm2" by blast
  from sm(2) sm2(2) have "cells sm (1, 0) = Some shade" by blast
  moreover from sm(3) sm2(3) sm1(3) have "cells sm (2, 0) = None" by simp
  moreover from sm(4) sm1(4) sm2(4) have "warnings sm = []" by simp
  ultimately show ?thesis using sm(1) by blast
qed

section \<open>The keys of a whole evaluation\<close>

lemma apply_rule_keys:
  assumes "apply_rule env df rule empty_style_map = Inr d"
  shows "rows d i = Some s \<Longrightarrow> i < length (records df) \<and> r_scope rule = Some ''row''"
    and "cells d k = Some s \<Longrightarrow>
           get_or ''cell'' (r_scope rule) = ''cell''
           \<and> (\<exists>tc. r_target_column rule = Some tc \<and> tc \<in> set (columns df)
                  \<and> cell_key (length (records df)) (get_loc (columns df) tc) k)"
proof -
  show "i < length (records df) \<and> r_scope rule = Some ''row''" if "rows d i = Some s"
    using assms that
    by (auto simp: apply_rule_def Let_def get_or_def
          split: if_splits option.splits dest: row_scope_keys(2) cell_scope_keys(1))
  show "get_or ''cell'' (r_scope rule) = ''cell''
           \<and> (\<exists>tc. r_target_column rule = Some tc \<and> tc \<in> set (columns df)
                  \<and> cell_key (length (records df)) (get_loc (columns df) tc) k)"
    if "cells d k = Some s"
    using assms that
    by (auto simp: apply_rule_def Let_def get_or_def
          split: if_splits option.splits dest: row_scope_keys(1) cell_scope_keys(2))
qed

lemma apply_rules_Cons_Inr:
  assumes "apply_rules env df (rule # rest) empty_style_map = Inr sm"
  shows "\<exists>d d'. apply_rule env df rule empty_style_map = Inr d
           \<and> apply_rules env df rest empty_style_map = Inr d' \<and> sm = overlay d d'"
proof (cases "apply_rule env df rule empty_style_map")
  case (Inl e)
  with assms show ?thesis by simp
next
  case (Inr d)
  with assms have "apply_rules env df rest d = Inr sm" by simp
  then have "(case apply_rules env df rest empty_style_map of
                Inl e \<Rightarrow> Inl e | Inr d' \<Rightarrow> Inr (overlay d d')) = Inr sm"
    by (subst (asm) apply_rules_overlay)
  with Inr show ?thesis by (cases "apply_rules env df rest empty_style_map") auto
qed

lemma apply_rules_keys:
  assumes "apply_rules env df rules empty_style_map = Inr sm"
  shows "rows sm i = Some s \<Longrightarrow> i < length (records df)"
    and "cells sm k = Some s \<Longrightarrow>
           \<exists>rule \<in> set rules. \<exists>tc. r_target_column rule = Some tc \<and> tc \<in> set (columns df)
              \<and> cell_key (length (records df)) (get_loc (columns df) tc) k"
  using assms
proof (induction rules arbitrary: sm)
  case Nil
  { case 1 then show ?case by simp }
  { case 2 then show ?case by simp }
next
  case (Cons rule rest)
  { case 1
    from 1 obtain d d' where d: "apply_rule env df rule empty_style_map = Inr d"
      and d': "apply_rules env df rest empty_style_map = Inr d'" and sm: "sm = overlay d d'"
      using apply_rules_Cons_Inr [of env df rule rest sm] by blast
    from 1 sm have "rows d' i = Some s \<or> rows d i = Some s" by (auto simp: map_add_Some_iff)
    with Cons.IH(1) [OF _ d'] apply_rule_keys(1) [OF d] show ?case by blast }
  { case 2
    from 2 obtain d d' where d: "apply_rule env df rule empty_style_map = Inr d"
      and d': "apply_rules env df rest empty_style_map = Inr d'" and sm: "sm = overlay d d'"
      using apply_rules_Cons_Inr [of env df rule rest sm] by blast
    from 2 sm have "cells d' k = Some s \<or> cells d k = Some s" by (auto simp: map_add_Some_iff)
    with Cons.IH(2) [OF _ d'] apply_rule_keys(2) [OF d] show ?case by fastforce }
qed

lemma resolve_target_date_error:
  assumes "resolve_target_date env nf cond = Inl e"
  shows "\<exists>x msg. to_datetime env x = DtRaises msg"
  using assms
  by (auto simp: resolve_target_date_def Let_def
        split: if_splits option.splits pyval.splits dt_result.splits)

lemma apply_rule_zero_rows_returns:
  assumes "records df = []" and "\<forall>x msg. to_datetime env x \<noteq> DtRaises msg"
  shows "\<exists>sm'. apply_rule env df rule sm = Inr sm'"
proof -
  have r: "\<exists>t. resolve_target_date env nf cond = Inr t" for nf cond
    using resolve_target_date_error [of env nf cond] assms(2)
    by (cases "resolve_target_date env nf cond") auto
  have row: "\<exists>sm'. row_scope env df tc cond st sm = Inr sm'" for tc cond st
    using r [of "'' not found in context''" cond] assms(1)
    by (auto simp: row_scope_def Let_def split: target.splits)
  have cell: "\<exists>sm'. cell_scope env df tc cond st sm = Inr sm'" for tc cond st
    using r [of "'' not found''" cond] assms(1)
    by (auto simp: cell_scope_def Let_def date_compare_column_def color_scale_categorical_def
          color_scale_numeric_def color_scale_date_def split: target.splits)
  show ?thesis
    using row cell by (auto simp: apply_rule_def Let_def split: option.splits)
qed

lemma apply_rules_zero_rows_returns:
  assumes "records df = []" and "\<forall>x msg. to_datetime env x \<noteq> DtRaises msg"
  shows "\<exists>sm'. apply_rules env df rules sm = Inr sm'"
proof (induction rules arbitrary: sm)
  case Nil
  show ?case by simp
next
  case (Cons rule rest)
  from apply_rule_zero_rows_returns [OF assms, of rule sm]
  obtain sm1 where "apply_rule env df rule sm = Inr sm1" by blast
  with Cons [of sm1] show ?case by simp
qed

lemma apply_rules_no_columns:
  assumes "columns df = []"
  shows "apply_rules env df rules sm = Inr sm"
proof (induction rules)
  case Nil
  show ?case by simp
next
  case (Cons rule rest)
  have "apply_rule env df rule sm = Inr sm"
    using assms by (intro apply_rule_skip) (cases "r_target_column rule"; simp)
  with Cons show ?case by simp
qed

section \<open>A dataset without rows\<close>

text \<open>
  Claim C4, as amended. On a dataset with zero rows the evaluator, when it returns,
  returns a style map whose rows and cells are empty, for every rule list; it returns
  unless \<^verbatim>\<open>pd.to_datetime\<close> raises on the literal date of a rule. The warnings are
  empty when the dataset has no columns either; with columns, the warnings of the
  rules that are skipped as a whole are still appended.
\<close>

theorem zero_rows:
  assumes "records df = []"
  shows "(\<forall>sm. evaluate_formatting_rules env df rules = Inr sm \<longrightarrow>
            rows sm = Map.empty \<and> cells sm = Map.empty)
    \<and> (columns df = [] \<longrightarrow> evaluate_formatting_rules env df rules = Inr empty_style_map)
    \<and> ((\<forall>x msg. to_datetime env x \<noteq> DtRaises msg) \<longrightarrow>
          (\<exists>sm. evaluate_formatting_rules env df rules = Inr sm))"
proof (intro conjI allI impI)
  fix sm assume e: "evaluate_formatting_rules env df rules = Inr sm"
  then have a: "apply_rules env df rules empty_style_map = Inr sm"
    by (simp add: evaluate_formatting_rules_eq)
  show "rows sm = Map.empty"
  proof (rule ext)
    fix i show "rows sm i = None"
      using apply_rules_keys(1) [OF a, of i] assms by (cases "rows sm i") auto
  qed
  show "cells sm = Map.empty"
  proof (rule ext)
    fix k show "cells sm k = None"
      using apply_rules_keys(2) [OF a, of k] assms
      by (cases "cells sm k") (auto simp: cell_key_def)
  qed
next
  assume "columns df = []"
  then show "evaluate_formatting_rules env df rules = Inr empty_style_map"
    by (simp add: evaluate_formatting_rules_eq apply_rules_no_columns)
next
  assume "\<forall>x msg. to_datetime env x \<noteq> DtRaises msg"
  with assms show "\<exists>sm. evaluate_formatting_rules env df rules = Inr sm"
    unfolding evaluate_formatting_rules_eq by (rule apply_rules_zero_rows_returns)
qed

text \<open>A dataset with the column \<^verbatim>\<open>Score\<close> and no rows, under a numeric colour scale and
  a row rule on an absent column.\<close>

theorem zero_rows_witness:
  "\<exists>sm. evaluate_formatting_rules example_env no_scores [score_scale_rule, north_row_rule] = Inr sm
     \<and> rows sm = Map.empty \<and> cells sm = Map.empty"
proof -
  have r: "records no_scores = []" by (simp add: no_scores_def)
  have t: "\<forall>x msg. to_datetime example_env x \<noteq> DtRaises msg" by (simp add: example_env_def)
  from zero_rows [OF r, of example_env "[score_scale_rule, north_row_rule]"] t
  show ?thesis by blast
qed

text \<open>
  Claim C4 as it is written fails: on the dataset with the column \<^verbatim>\<open>Score\<close> and no
  rows, a numeric colour scale on \<^verbatim>\<open>Score\<close> appends the warning that the column has
  no valid numeric values.
\<close>

theorem zero_rows_counterexample:
  "evaluate_formatting_rules example_env no_scores [score_scale_rule]
     = Inr (empty_style_map\<lparr>warnings := [sq @ ''Score'' @ sq @ '' has no valid numeric values'']\<rparr>)
   \<and> evaluate_formatting_rules example_env no_scores [score_scale_rule]
       \<noteq> Inr \<lparr>rows = Map.empty, cells = Map.empty, warnings = []\<rparr>"
  by (simp add: evaluate_formatting_rules_def apply_rule_def cell_scope_def
        color_scale_numeric_def score_scale_rule_def no_scores_def no_condition_def
        default_colors_def add_warning_def empty_style_map_def)

section \<open>The keys of the cells and of the rows\<close>






end
